theory Spec2Isabelle
  imports Complex_Main "HOL-Library.AList"
begin

section \<open>The symbolic engine as seen by the update rules\<close>

text \<open>
  The module \<open>lasagne/updates.py\<close> builds symbolic expressions over shared variables and
  returns them in an ordered dictionary. A shared variable is a mutable cell, known by its
  identity; an expression is identified with the function that maps the current contents
  of all cells to its value. Cells hold one number each (a tensor of rank 0; the rules
  below act elementwise on a tensor of higher rank), and the arithmetic of the engine is
  taken over the reals: rounding, infinities and NaN of the float types are not modelled.
\<close>

type_synonym cell = nat
type_synonym env = "cell \<Rightarrow> real"
type_synonym expr = "env \<Rightarrow> real"

text \<open>A variable of the engine: a shared variable, or any other symbolic variable.\<close>

datatype variable = SharedVariable cell | TensorVariable expr

fun is_shared :: "variable \<Rightarrow> bool" where
  "is_shared (SharedVariable c) = True"
| "is_shared (TensorVariable e) = False"

fun value_of :: "variable \<Rightarrow> expr" where
  "value_of (SharedVariable c) = (\<lambda>\<sigma>. \<sigma> c)"
| "value_of (TensorVariable e) = e"

text \<open>A hyperparameter that is "float or symbolic scalar".\<close>

datatype scalar = PyFloat real | Symbolic expr

fun as_expr :: "scalar \<Rightarrow> expr" where
  "as_expr (PyFloat r) = (\<lambda>\<sigma>. r)"
| "as_expr (Symbolic e) = e"

text \<open>
  The exceptions of the module. The first three are the \<open>ValueError\<close>s it raises itself;
  the others are raised by Python under it: a missing dictionary key, \<open>str + None\<close> and
  the conversion of a symbolic value to an array, \<open>get_value\<close> on a variable that is not
  shared, and by the engine for a reduction over an axis that the tensor does not have.
\<close>

datatype error =
    ParamsNotShared
  | GradCountMismatch nat nat
  | UnsupportedDimensionality nat
  | KeyError variable
  | TypeError
  | AttributeError
  | AxisOutOfBounds

definition and_then :: "error + 'a \<Rightarrow> ('a \<Rightarrow> error + 'b) \<Rightarrow> error + 'b" where
  "and_then m f = (case m of Inl e \<Rightarrow> Inl e | Inr x \<Rightarrow> f x)"

text \<open>
  \<open>T.pow\<close> on real numbers: repeated multiplication for an integral exponent (so that
  \<open>0 ** 0 = 1\<close> and a negative base is allowed there), the real power otherwise.
\<close>

definition T_pow :: "real \<Rightarrow> real \<Rightarrow> real" where
  "T_pow x y =
     (if y = of_int \<lfloor>y\<rfloor>
      then (if 0 \<le> y then x ^ nat \<lfloor>y\<rfloor> else 1 / x ^ nat \<lfloor>- y\<rfloor>)
      else x powr y)"

text \<open>\<open>T.clip(x, min, max)\<close>: the scalar implementation tests the lower bound first.\<close>

definition T_clip :: "real \<Rightarrow> real \<Rightarrow> real \<Rightarrow> real" where
  "T_clip x lo hi = (if x < lo then lo else if x > hi then hi else x)"

section \<open>Gradient resolution\<close>

text \<open>
  The first argument of every rule is a list of gradient expressions or a scalar loss.
  A loss is only ever handed to \<open>theano.grad\<close>; it is represented by its expression
  together with the engine's derivative of it with respect to a variable, and
  \<open>theano.grad(loss, params)\<close> is the list of these derivatives, one for each element of
  \<open>params\<close>.
\<close>

datatype loss_or_grads = Grads "expr list" | Loss expr "variable \<Rightarrow> expr"

definition theano_grad :: "expr \<Rightarrow> (variable \<Rightarrow> expr) \<Rightarrow> variable list \<Rightarrow> expr list" where
  "theano_grad cost wrt params = map wrt params"

definition get_or_compute_grads :: "loss_or_grads \<Rightarrow> variable list \<Rightarrow> error + expr list" where
  "get_or_compute_grads loss_or_grads params =
     (if list_ex (\<lambda>p. \<not> is_shared p) params then Inl ParamsNotShared
      else case loss_or_grads of
             Grads gs \<Rightarrow>
               if \<not> (length gs = length params)
               then Inl (GradCountMismatch (length gs) (length params))
               else Inr gs
           | Loss cost wrt \<Rightarrow> Inr (theano_grad cost wrt params))"

section \<open>Exponential moving average\<close>

definition th_fx :: "expr \<Rightarrow> expr" where
  \<comment> \<open>Modelled from the spec: \<open>utils.th_fx\<close> is not among the sources. The formulas of the
      spec use the value as it is, so the conversion to the engine's float type is the
      identity on real-valued expressions.\<close>
  "th_fx e = e"

definition exponential_moving_average ::
  "expr \<Rightarrow> expr \<Rightarrow> expr \<Rightarrow> expr option \<Rightarrow> real option \<Rightarrow> expr" where
  "exponential_moving_average alpha s_t x_t t init_period =
     (let alpha = th_fx alpha;
          factor = (\<lambda>\<sigma>. 1) in
      if t \<noteq> None \<and> init_period \<noteq> None \<and> the init_period > 0 then
        (let p = th_fx (\<lambda>\<sigma>. the init_period);
             t = th_fx (the t);
             alpha = (\<lambda>\<sigma>. alpha \<sigma> * min 1 ((p \<sigma> - 1) * t \<sigma> / (p \<sigma>)\<^sup>2 + inverse (p \<sigma>)))
         in (\<lambda>\<sigma>. (alpha \<sigma> * s_t \<sigma> + (1 - alpha \<sigma>) * x_t \<sigma>) / factor \<sigma>))
      else if t \<noteq> None then
        (let factor = (\<lambda>\<sigma>. 1 - T_pow (alpha \<sigma>) (th_fx (\<lambda>\<sigma>. the t \<sigma> + 1) \<sigma>))
         in (\<lambda>\<sigma>. (alpha \<sigma> * s_t \<sigma> + (1 - alpha \<sigma>) * x_t \<sigma>) / factor \<sigma>))
      else (\<lambda>\<sigma>. (alpha \<sigma> * s_t \<sigma> + (1 - alpha \<sigma>) * x_t \<sigma>) / factor \<sigma>))"

abbreviation ema :: "expr \<Rightarrow> expr \<Rightarrow> expr \<Rightarrow> expr option \<Rightarrow> real option \<Rightarrow> expr" where
  "ema \<equiv> exponential_moving_average"

section \<open>The graph under construction: shared variables and dictionaries\<close>

text \<open>
  \<open>theano.shared\<close> allocates a new cell; an \<open>OrderedDict\<close> is an object that callers
  and callees may share, so the dictionaries live in a store and are passed by reference.
  A dictionary keeps its keys in the order of their first insertion, and an assignment to
  a key that is present replaces its value in place.
\<close>

record shared_info =
  init_value :: real
  var_name :: "string option"

type_synonym updates = "(variable \<times> expr) list"
type_synonym ref = nat

record graph =
  cells :: "shared_info list"
  dicts :: "updates list"

definition theano_shared :: "real \<Rightarrow> string option \<Rightarrow> graph \<Rightarrow> variable \<times> graph" where
  "theano_shared v name g =
     (SharedVariable (length (cells g)),
      g\<lparr>cells := cells g @ [\<lparr>init_value = v, var_name = name\<rparr>]\<rparr>)"

definition OrderedDict :: "(variable \<times> expr) list \<Rightarrow> graph \<Rightarrow> ref \<times> graph" where
  "OrderedDict pairs g =
     (length (dicts g), g\<lparr>dicts := dicts g @ [fold (\<lambda>(k, v). AList.update k v) pairs []]\<rparr>)"

definition items :: "ref \<Rightarrow> graph \<Rightarrow> updates" where
  "items r g = dicts g ! r"

definition keys :: "ref \<Rightarrow> graph \<Rightarrow> variable list" where
  "keys r g = map fst (items r g)"

definition setitem :: "ref \<Rightarrow> variable \<Rightarrow> expr \<Rightarrow> graph \<Rightarrow> graph" where
  "setitem r k v g = g\<lparr>dicts := (dicts g)[r := AList.update k v (dicts g ! r)]\<rparr>"

definition getitem :: "ref \<Rightarrow> variable \<Rightarrow> graph \<Rightarrow> error + expr" where
  "getitem r k g = (case map_of (items r g) k of None \<Rightarrow> Inl (KeyError k) | Some v \<Rightarrow> Inr v)"

text \<open>\<open>d.get(k, default)\<close> and \<open>d.update(other)\<close>.\<close>

definition get_default :: "ref \<Rightarrow> variable \<Rightarrow> expr \<Rightarrow> graph \<Rightarrow> expr" where
  "get_default r k dflt g = (case map_of (items r g) k of None \<Rightarrow> dflt | Some v \<Rightarrow> v)"


text \<open>
  The name of a variable (symbolic variables that are not shared are taken to be
  anonymous), and \<open>name + suffix\<close>, which raises on the name \<open>None\<close>.
\<close>

definition name_of :: "graph \<Rightarrow> variable \<Rightarrow> string option" where
  "name_of g v = (case v of SharedVariable c \<Rightarrow> var_name (cells g ! c) | TensorVariable e \<Rightarrow> None)"

definition str_add :: "string option \<Rightarrow> string option \<Rightarrow> error + string" where
  "str_add a b = (case (a, b) of (Some x, Some y) \<Rightarrow> Inr (x @ y) | _ \<Rightarrow> Inl TypeError)"

text \<open>\<open>param.get_value(borrow=True)\<close> is read for its shape and type only.\<close>

definition get_value :: "variable \<Rightarrow> graph \<Rightarrow> error + unit" where
  "get_value param g = (if is_shared param then Inr () else Inl AttributeError)"

text \<open>Integer cells: the sum is reduced into the range of a signed integer of \<open>w\<close> bits.\<close>

definition wrap_int :: "nat \<Rightarrow> real \<Rightarrow> real" where
  "wrap_int w x =
     (if x \<ge> 2 ^ (w - 1) then x - 2 ^ w else if x < - (2 ^ (w - 1)) then x + 2 ^ w else x)"

definition ifelse :: "(env \<Rightarrow> bool) \<Rightarrow> expr \<Rightarrow> expr \<Rightarrow> expr" where
  "ifelse cond then_branch else_branch = (\<lambda>\<sigma>. if cond \<sigma> then then_branch \<sigma> else else_branch \<sigma>)"

text \<open>
  One call of the function compiled from an update dictionary: every right-hand side is
  evaluated on the old contents of the cells, then all cells are assigned at once.
\<close>

definition apply_updates :: "updates \<Rightarrow> env \<Rightarrow> env" where
  "apply_updates U \<sigma> = (\<lambda>c. case map_of U (SharedVariable c) of None \<Rightarrow> \<sigma> c | Some e \<Rightarrow> e \<sigma>)"

definition initial_env :: "graph \<Rightarrow> env" where
  "initial_env g = (\<lambda>c. if c < length (cells g) then init_value (cells g ! c) else 0)"

section \<open>Learning-rate decay\<close>

fun apply_decay_loop :: "string \<Rightarrow> ref \<Rightarrow> variable list \<Rightarrow> int \<Rightarrow> real \<Rightarrow> graph \<Rightarrow> error + graph" where
  "apply_decay_loop sd updates [] period factor g = Inr g"
| "apply_decay_loop sd updates (p # params) period factor g =
     and_then (str_add (name_of g p) (Some sd)) (\<lambda>prefix.
     and_then (str_add (Some prefix) (Some ''decay_count'')) (\<lambda>name.
       let (count, g) = theano_shared 1 (Some name) g;
           one = (\<lambda>\<sigma>. 1);
           cond = (\<lambda>\<sigma>. value_of count \<sigma> \<ge> of_int period);
           g = setitem updates count
                 (ifelse cond one (\<lambda>\<sigma>. wrap_int 64 (value_of count \<sigma> + one \<sigma>))) g;
           g = setitem updates p (ifelse cond (\<lambda>\<sigma>. value_of p \<sigma> * factor) (value_of p)) g
       in apply_decay_loop sd updates params period factor g))"

text \<open>\<open>sd\<close> stands for \<open>utils.SCOPE_DELIMITER\<close>, a string constant of a module that is not
  among the sources.\<close>

definition apply_decay ::
  "string \<Rightarrow> ref \<Rightarrow> variable list \<Rightarrow> int \<Rightarrow> real \<Rightarrow> graph \<Rightarrow> error + (ref \<times> graph)" where
  "apply_decay sd updates params period factor g =
     (if period \<le> 0 then Inr (updates, g)
      else and_then (apply_decay_loop sd updates params period factor g) (\<lambda>g. Inr (updates, g)))"

definition floatX :: "scalar \<Rightarrow> error + real" where
  \<comment> \<open>Modelled from the spec: \<open>utils.floatX\<close> is not among the sources. The learning rate is
      promoted to persistent state holding its value, which takes a number; a symbolic
      value has none when the graph is built.\<close>
  "floatX x = (case x of PyFloat r \<Rightarrow> Inr r | Symbolic e \<Rightarrow> Inl TypeError)"

type_synonym 'a updates_fn =
  "loss_or_grads \<Rightarrow> variable list \<Rightarrow> scalar \<Rightarrow> 'a \<Rightarrow> graph \<Rightarrow> error + (ref \<times> graph)"

text \<open>
  The decorator. \<open>args\<close> are the further arguments of the wrapped rule; \<open>decay_period\<close>
  and \<open>decay_factor\<close> are the keyword arguments of the wrapper (defaults \<open>0\<close> and \<open>0.5\<close>).
\<close>

definition lr_decay ::
  "string \<Rightarrow> 'a updates_fn \<Rightarrow> loss_or_grads \<Rightarrow> variable list \<Rightarrow> scalar \<Rightarrow> 'a \<Rightarrow> int \<Rightarrow> real \<Rightarrow> graph
     \<Rightarrow> error + (ref \<times> graph)" where
  "lr_decay sd updates_fn loss_or_grads params learning_rate args decay_period decay_factor g =
     (if decay_period \<le> 0 \<or> decay_factor = 1
      then updates_fn loss_or_grads params learning_rate args g
      else
        and_then (floatX learning_rate) (\<lambda>v.
          let (learning_rate, g) = theano_shared v (Some ''learning_rate'') g in
          and_then (updates_fn loss_or_grads params (Symbolic (value_of learning_rate)) args g)
            (\<lambda>(updates, g).
          and_then (apply_decay sd updates [learning_rate] decay_period decay_factor g)
            (\<lambda>(updates, g). Inr (updates, g)))))"

section \<open>Stochastic gradient descent\<close>

fun sgd_loop :: "ref \<Rightarrow> expr \<Rightarrow> (variable \<times> expr) list \<Rightarrow> graph \<Rightarrow> graph" where
  "sgd_loop updates learning_rate [] g = g"
| "sgd_loop updates learning_rate ((param, grad) # rest) g =
     sgd_loop updates learning_rate rest
       (setitem updates param (\<lambda>\<sigma>. value_of param \<sigma> - learning_rate \<sigma> * grad \<sigma>) g)"

text \<open>The function under the decorator, and the decorated function that the module exports.\<close>

definition sgd_undecorated :: "unit updates_fn" where
  "sgd_undecorated loss_or_grads params learning_rate args g =
     and_then (get_or_compute_grads loss_or_grads params) (\<lambda>grads.
       let (updates, g) = OrderedDict [] g
       in Inr (updates, sgd_loop updates (as_expr learning_rate) (zip params grads) g))"

definition sgd ::
  "string \<Rightarrow> loss_or_grads \<Rightarrow> variable list \<Rightarrow> scalar \<Rightarrow> unit \<Rightarrow> int \<Rightarrow> real \<Rightarrow> graph
     \<Rightarrow> error + (ref \<times> graph)" where
  "sgd sd = lr_decay sd sgd_undecorated"

section \<open>Momentum\<close>

definition make_velocity :: "variable \<Rightarrow> graph \<Rightarrow> error + (variable \<times> graph)" where
  "make_velocity param g =
     and_then (get_value param g) (\<lambda>value. Inr (theano_shared 0 None g))"

fun make_velocities :: "variable list \<Rightarrow> graph \<Rightarrow> error + (variable list \<times> graph)" where
  "make_velocities [] g = Inr ([], g)"
| "make_velocities (p # params) g =
     and_then (make_velocity p g) (\<lambda>(v, g).
     and_then (make_velocities params g) (\<lambda>(vs, g). Inr (v # vs, g)))"

fun apply_momentum_loop :: "ref \<Rightarrow> expr \<Rightarrow> (variable \<times> variable) list \<Rightarrow> graph \<Rightarrow> error + graph" where
  "apply_momentum_loop updates mom [] g = Inr g"
| "apply_momentum_loop updates mom ((param, velocity) # rest) g =
     and_then (getitem updates param g) (\<lambda>u.
       let x = (\<lambda>\<sigma>. mom \<sigma> * value_of velocity \<sigma> + u \<sigma>);
           g = setitem updates velocity (\<lambda>\<sigma>. x \<sigma> - value_of param \<sigma>) g;
           g = setitem updates param x g
       in apply_momentum_loop updates mom rest g)"

definition apply_momentum ::
  "ref \<Rightarrow> variable list option \<Rightarrow> scalar \<Rightarrow> variable list option \<Rightarrow> graph \<Rightarrow> error + (ref \<times> graph)" where
  "apply_momentum updates params mom velocities g =
     (let params = (case params of None \<Rightarrow> keys updates g | Some ps \<Rightarrow> ps);
          (updates, g) = OrderedDict (items updates g) g
      in and_then (case velocities of None \<Rightarrow> make_velocities params g | Some vs \<Rightarrow> Inr (vs, g))
           (\<lambda>(velocities, g).
         and_then (apply_momentum_loop updates (as_expr mom) (zip params velocities) g)
           (\<lambda>g. Inr (updates, g))))"

fun apply_nesterov_momentum_loop ::
  "ref \<Rightarrow> expr \<Rightarrow> (variable \<times> variable) list \<Rightarrow> graph \<Rightarrow> error + graph" where
  "apply_nesterov_momentum_loop updates mom [] g = Inr g"
| "apply_nesterov_momentum_loop updates mom ((param, velocity) # rest) g =
     and_then (getitem updates param g) (\<lambda>u.
       let x = (\<lambda>\<sigma>. mom \<sigma> * value_of velocity \<sigma> + u \<sigma> - value_of param \<sigma>);
           g = setitem updates velocity x g
       in and_then (getitem updates param g) (\<lambda>u'.
            let g = setitem updates param (\<lambda>\<sigma>. mom \<sigma> * x \<sigma> + u' \<sigma>) g
            in apply_nesterov_momentum_loop updates mom rest g))"

definition apply_nesterov_momentum ::
  "ref \<Rightarrow> variable list option \<Rightarrow> scalar \<Rightarrow> variable list option \<Rightarrow> graph \<Rightarrow> error + (ref \<times> graph)" where
  "apply_nesterov_momentum updates params mom velocities g =
     (let params = (case params of None \<Rightarrow> keys updates g | Some ps \<Rightarrow> ps);
          (updates, g) = OrderedDict (items updates g) g
      in and_then (case velocities of None \<Rightarrow> make_velocities params g | Some vs \<Rightarrow> Inr (vs, g))
           (\<lambda>(velocities, g).
         and_then (apply_nesterov_momentum_loop updates (as_expr mom) (zip params velocities) g)
           (\<lambda>g. Inr (updates, g))))"



definition nesterov_momentum_undecorated ::
  "string \<Rightarrow> (scalar \<times> variable list option) updates_fn" where
  "nesterov_momentum_undecorated sd loss_or_grads params learning_rate args g =
     (case args of (mom, velocities) \<Rightarrow>
        and_then (sgd sd loss_or_grads params learning_rate () 0 (1/2) g) (\<lambda>(updates, g).
          apply_nesterov_momentum updates None mom velocities g))"

definition nesterov_momentum ::
  "string \<Rightarrow> loss_or_grads \<Rightarrow> variable list \<Rightarrow> scalar \<Rightarrow> scalar \<times> variable list option \<Rightarrow> int \<Rightarrow> real
     \<Rightarrow> graph \<Rightarrow> error + (ref \<times> graph)" where
  "nesterov_momentum sd = lr_decay sd (nesterov_momentum_undecorated sd)"

section \<open>Burnout\<close>

text \<open>\<open>ifelse\<close> on two lists of expressions selects between them elementwise.\<close>

definition ifelse_list :: "(env \<Rightarrow> bool) \<Rightarrow> expr list \<Rightarrow> expr list \<Rightarrow> expr list" where
  "ifelse_list cond then_branch else_branch = map2 (ifelse cond) then_branch else_branch"

definition apply_burnout :: "ref \<Rightarrow> ref \<Rightarrow> real \<Rightarrow> graph \<Rightarrow> ref \<times> graph" where
  "apply_burnout long_updates initial_updates burnout g =
     (if burnout > 0 then
        let (t, g) = theano_shared 0 (Some ''momentum_t'') g;
            cond = (\<lambda>\<sigma>. value_of t \<sigma> \<ge> burnout);
            initial_values =
              map (\<lambda>(k, v). get_default initial_updates k (value_of k) g) (items long_updates g);
            long_values = map (\<lambda>(_, v). v) (items long_updates g);
            values = ifelse_list cond long_values initial_values;
            (updates, g) = OrderedDict (map2 (\<lambda>(k, _) v. (k, v)) (items long_updates g) values) g;
            g = setitem updates t (\<lambda>\<sigma>. wrap_int 64 (value_of t \<sigma> + 1)) g
        in (updates, g)
      else (long_updates, g))"

definition wrap_with_burnout ::
  "string \<Rightarrow> 'a updates_fn \<Rightarrow> real \<Rightarrow> loss_or_grads \<Rightarrow> variable list \<Rightarrow> scalar \<Rightarrow> 'a \<Rightarrow> graph
     \<Rightarrow> error + (ref \<times> graph)" where
  "wrap_with_burnout sd updates_fn burnout loss_or_grads params learning_rate kwargs g =
     and_then (sgd sd loss_or_grads params learning_rate () 0 (1/2) g) (\<lambda>(sgd_updates, g).
     and_then (updates_fn loss_or_grads params learning_rate kwargs g) (\<lambda>(updates, g).
       Inr (apply_burnout updates sgd_updates burnout g)))"

section \<open>Adam\<close>

definition adam_a_t :: "expr \<Rightarrow> real \<Rightarrow> real \<Rightarrow> expr \<Rightarrow> expr" where
  "adam_a_t learning_rate beta1 beta2 t =
     (\<lambda>\<sigma>. learning_rate \<sigma> * sqrt (1 - T_pow beta2 (t \<sigma>)) / (1 - T_pow beta1 (t \<sigma>)))"

fun adam_loop ::
  "ref \<Rightarrow> expr \<Rightarrow> real \<Rightarrow> real \<Rightarrow> real \<Rightarrow> (variable \<times> expr) list \<Rightarrow> graph \<Rightarrow> error + graph" where
  "adam_loop updates a_t beta1 beta2 epsilon [] g = Inr g"
| "adam_loop updates a_t beta1 beta2 epsilon ((param, g_t) # rest) g =
     and_then (get_value param g) (\<lambda>value.
     and_then (str_add (Some ''Adam_mu::'') (name_of g param)) (\<lambda>mu_name.
       let (m_prev, g) = theano_shared 0 (Some mu_name) g in
     and_then (str_add (Some ''Adam_var::'') (name_of g param)) (\<lambda>var_name.
       let (v_prev, g) = theano_shared 0 (Some var_name) g;
           m_t = (\<lambda>\<sigma>. beta1 * value_of m_prev \<sigma> + (1 - beta1) * g_t \<sigma>);
           v_t = (\<lambda>\<sigma>. beta2 * value_of v_prev \<sigma> + (1 - beta2) * (g_t \<sigma>)\<^sup>2);
           step = (\<lambda>\<sigma>. a_t \<sigma> * m_t \<sigma> / (sqrt (v_t \<sigma>) + epsilon));
           g = setitem updates m_prev m_t g;
           g = setitem updates v_prev v_t g;
           g = setitem updates param (\<lambda>\<sigma>. value_of param \<sigma> - step \<sigma>) g
       in adam_loop updates a_t beta1 beta2 epsilon rest g)))"

text \<open>The further arguments are \<open>(beta1, beta2, epsilon)\<close>.\<close>

definition adam_undecorated :: "(real \<times> real \<times> real) updates_fn" where
  "adam_undecorated loss_or_grads params learning_rate args g =
     (case args of (beta1, beta2, epsilon) \<Rightarrow>
        and_then (get_or_compute_grads loss_or_grads params) (\<lambda>all_grads.
          let (t_prev, g) = theano_shared 0 (Some ''Adam_t'') g;
              (updates, g) = OrderedDict [] g;
              t = (\<lambda>\<sigma>. value_of t_prev \<sigma> + 1);
              a_t = adam_a_t (as_expr learning_rate) beta1 beta2 t
          in and_then (adam_loop updates a_t beta1 beta2 epsilon (zip params all_grads) g) (\<lambda>g.
               Inr (updates, setitem updates t_prev t g))))"

definition adam ::
  "string \<Rightarrow> loss_or_grads \<Rightarrow> variable list \<Rightarrow> scalar \<Rightarrow> real \<times> real \<times> real \<Rightarrow> int \<Rightarrow> real
     \<Rightarrow> graph \<Rightarrow> error + (ref \<times> graph)" where
  "adam sd = lr_decay sd adam_undecorated"

section \<open>Cocob\<close>

text \<open>The expressions that the loop of \<open>cocob\<close> builds for one parameter, under the names
  they have in the source.\<close>

definition cocob_l_t :: "variable \<Rightarrow> expr \<Rightarrow> expr" where
  "cocob_l_t l grad = (\<lambda>\<sigma>. max (value_of l \<sigma> * (999 / 1000)) \<bar>grad \<sigma>\<bar>)"

definition cocob_g_t :: "variable \<Rightarrow> expr \<Rightarrow> expr" where
  "cocob_g_t g grad = (\<lambda>\<sigma>. value_of g \<sigma> + \<bar>grad \<sigma>\<bar>)"

definition cocob_r_t :: "variable \<Rightarrow> variable \<Rightarrow> expr \<Rightarrow> expr" where
  "cocob_r_t r param grad = (\<lambda>\<sigma>. T_clip (value_of r \<sigma> - value_of param \<sigma> * grad \<sigma>) 0 1000)"

definition cocob_s_t :: "variable \<Rightarrow> expr \<Rightarrow> expr" where
  "cocob_s_t s grad = (\<lambda>\<sigma>. value_of s \<sigma> + grad \<sigma>)"

definition cocob_factor :: "expr \<Rightarrow> expr \<Rightarrow> expr \<Rightarrow> real \<Rightarrow> real \<Rightarrow> expr" where
  "cocob_factor l_t g_t s_t alpha epsilon =
     (\<lambda>\<sigma>. s_t \<sigma> / (l_t \<sigma> * max (g_t \<sigma> + l_t \<sigma>) (alpha * l_t \<sigma>) + epsilon))"

fun cocob_loop :: "ref \<Rightarrow> real \<Rightarrow> real \<Rightarrow> (variable \<times> expr) list \<Rightarrow> graph \<Rightarrow> error + graph" where
  "cocob_loop updates alpha epsilon [] gr = Inr gr"
| "cocob_loop updates alpha epsilon ((param, grad) # rest) gr =
     and_then (get_value param gr) (\<lambda>value.
       let (l, gr) = theano_shared 0 None gr;
           (g, gr) = theano_shared 0 None gr;
           (r, gr) = theano_shared 0 None gr;
           (s, gr) = theano_shared 0 None gr;
           l_t = cocob_l_t l grad;
           g_t = cocob_g_t g grad;
           r_t = cocob_r_t r param grad;
           s_t = cocob_s_t s grad;
           factor = cocob_factor l_t g_t s_t alpha epsilon;
           gr = setitem updates param (\<lambda>\<sigma>. value_of param \<sigma> - factor \<sigma> * (l_t \<sigma> + r_t \<sigma>)) gr
       in cocob_loop updates alpha epsilon rest gr)"

definition cocob ::
  "loss_or_grads \<Rightarrow> variable list \<Rightarrow> real \<Rightarrow> real \<Rightarrow> bool \<Rightarrow> graph \<Rightarrow> error + (ref \<times> graph)" where
  "cocob loss_or_grads params alpha epsilon use_sigmoid gr =
     and_then (get_or_compute_grads loss_or_grads params) (\<lambda>grads.
       let (updates, gr) = OrderedDict [] gr
       in and_then (cocob_loop updates alpha epsilon (zip params grads) gr) (\<lambda>gr.
            Inr (updates, gr)))"

section \<open>Norm constraints\<close>

text \<open>
  \<open>norm_constraint\<close> reduces over axes, so its argument is a tensor with a shape: the
  entries are given by a function of the index, of which only the indices within the shape
  matter. The operations are those of the engine that the function uses: the square and
  the square root of every entry, the sum over a set of axes that keeps the reduced axes
  with length one, and the arithmetic between a tensor and a scalar or a tensor that is
  broadcast along its axes of length one.
\<close>

record tensor =
  shape :: "nat list"
  entry :: "nat list \<Rightarrow> real"









section \<open>YellowFin\<close>



fun setitems :: "ref \<Rightarrow> (variable \<times> expr) list \<Rightarrow> graph \<Rightarrow> graph" where
  "setitems r [] g = g"
| "setitems r ((k, v) # kvs) g = setitems r kvs (setitem r k v g)"












section \<open>Notions used in the statements\<close>

text \<open>
  A shared variable is allocated when its cell belongs to the graph; \<open>fresh_cells g n\<close>
  are the next \<open>n\<close> cells that \<open>theano.shared\<close> hands out. The parameters and the
  velocities that \<open>apply_momentum\<close> and \<open>apply_nesterov_momentum\<close> pair up: the keys
  of the dictionary when \<open>params\<close> is \<open>None\<close>, new cells when \<open>velocities\<close> is \<open>None\<close>.
\<close>

definition allocated :: "graph \<Rightarrow> variable \<Rightarrow> bool" where
  "allocated g v = (case v of SharedVariable c \<Rightarrow> c < length (cells g) | TensorVariable e \<Rightarrow> True)"

definition fresh_cells :: "graph \<Rightarrow> nat \<Rightarrow> variable list" where
  "fresh_cells g n = map (\<lambda>i. SharedVariable (length (cells g) + i)) [0 ..< n]"

definition momentum_params :: "ref \<Rightarrow> variable list option \<Rightarrow> graph \<Rightarrow> variable list" where
  "momentum_params updates params g = (case params of None \<Rightarrow> keys updates g | Some ps \<Rightarrow> ps)"

definition momentum_velocities :: "ref \<Rightarrow> variable list option \<Rightarrow> variable list option \<Rightarrow> graph \<Rightarrow> variable list" where
  "momentum_velocities updates params velocities g =
     (case velocities of None \<Rightarrow> fresh_cells g (length (momentum_params updates params g)) | Some vs \<Rightarrow> vs)"

text \<open>The update that \<open>cocob\<close> builds for a parameter whose four state cells start at
  cell \<open>c\<close>.\<close>

definition cocob_update :: "nat \<Rightarrow> variable \<Rightarrow> expr \<Rightarrow> real \<Rightarrow> real \<Rightarrow> expr" where
  "cocob_update c param grad alpha epsilon =
     (\<lambda>\<sigma>. value_of param \<sigma>
          - cocob_factor (cocob_l_t (SharedVariable c) grad) (cocob_g_t (SharedVariable (c + 1)) grad)
              (cocob_s_t (SharedVariable (c + 3)) grad) alpha epsilon \<sigma>
            * (cocob_l_t (SharedVariable c) grad \<sigma> + cocob_r_t (SharedVariable (c + 2)) param grad \<sigma>))"



section \<open>Properties\<close>

lemma T_pow_of_nat: "T_pow x (of_nat n) = x ^ n"
  by (simp add: T_pow_def)

subsection \<open>Gradient resolution\<close>

text \<open>
  C9. \<open>get_or_compute_grads\<close> raises exactly when the first argument is a list of
  gradients whose length differs from the length of \<open>params\<close>, or some element of
  \<open>params\<close> is not a shared variable. Over shared variables only, a list of matching
  length is returned as it is, and a loss yields one gradient for each parameter, in the
  order of \<open>params\<close>.
\<close>

theorem get_or_compute_grads_contract:
  "(isl (get_or_compute_grads lg params) \<longleftrightarrow>
      (\<exists>gs. lg = Grads gs \<and> length gs \<noteq> length params) \<or> (\<exists>p \<in> set params. \<not> is_shared p))
   \<and> ((\<forall>p \<in> set params. is_shared p) \<longrightarrow>
        (\<forall>gs. length gs = length params \<longrightarrow> get_or_compute_grads (Grads gs) params = Inr gs)
        \<and> (\<forall>cost wrt. \<exists>ds. get_or_compute_grads (Loss cost wrt) params = Inr ds
              \<and> length ds = length params \<and> (\<forall>i < length params. ds ! i = wrt (params ! i))))"
proof -
  have fails: "isl (get_or_compute_grads lg params) \<longleftrightarrow>
      (\<exists>gs. lg = Grads gs \<and> length gs \<noteq> length params) \<or> (\<exists>p \<in> set params. \<not> is_shared p)"
    by (cases lg) (auto simp: get_or_compute_grads_def list_ex_iff)
  have given: "get_or_compute_grads (Grads gs) params = Inr gs"
    if "\<forall>p \<in> set params. is_shared p" "length gs = length params" for gs
    using that by (simp add: get_or_compute_grads_def list_ex_iff)
  have computed: "\<exists>ds. get_or_compute_grads (Loss cost wrt) params = Inr ds
              \<and> length ds = length params \<and> (\<forall>i < length params. ds ! i = wrt (params ! i))"
    if "\<forall>p \<in> set params. is_shared p" for cost wrt
    using that by (simp add: get_or_compute_grads_def list_ex_iff theano_grad_def)
  show ?thesis using fails given computed by blast
qed

theorem get_or_compute_grads_contract_witness:
  "get_or_compute_grads (Grads [\<lambda>\<sigma>. 1, \<lambda>\<sigma>. 2]) [SharedVariable 0, SharedVariable 1] = Inr [\<lambda>\<sigma>. 1, \<lambda>\<sigma>. 2]
   \<and> isl (get_or_compute_grads (Grads [\<lambda>\<sigma>. 1]) [SharedVariable 0, SharedVariable 1])
   \<and> isl (get_or_compute_grads (Grads [\<lambda>\<sigma>. 1]) [TensorVariable (\<lambda>\<sigma>. 0)])
   \<and> get_or_compute_grads (Loss (\<lambda>\<sigma>. \<sigma> 0 * \<sigma> 1) (\<lambda>p. if p = SharedVariable 0 then (\<lambda>\<sigma>. \<sigma> 1) else (\<lambda>\<sigma>. \<sigma> 0)))
        [SharedVariable 0, SharedVariable 1] = Inr [\<lambda>\<sigma>. \<sigma> 1, \<lambda>\<sigma>. \<sigma> 0]"
  using get_or_compute_grads_contract [of "Grads [\<lambda>\<sigma>. 1, \<lambda>\<sigma>. 2]" "[SharedVariable 0, SharedVariable 1]"]
    get_or_compute_grads_contract [of "Grads [\<lambda>\<sigma>. 1]" "[SharedVariable 0, SharedVariable 1]"]
    get_or_compute_grads_contract [of "Grads [\<lambda>\<sigma>. 1]" "[TensorVariable (\<lambda>\<sigma>. 0)]"]
  by (simp add: get_or_compute_grads_def theano_grad_def)

subsection \<open>The decay decorator\<close>

text \<open>
  C8. Whatever the wrapped rule and its arguments, a call of the decorated rule with
  \<open>decay_period \<le> 0\<close> or with \<open>decay_factor = 1\<close> is the call of the rule under the
  decorator with the learning rate as given: the same dictionary in the same graph, so
  no counter and no shared learning rate has been allocated.
\<close>

theorem lr_decay_without_decay:
  "decay_period \<le> 0 \<or> decay_factor = 1 \<Longrightarrow>
     lr_decay sd updates_fn lg params learning_rate args decay_period decay_factor g
       = updates_fn lg params learning_rate args g"
  by (simp add: lr_decay_def)

theorem lr_decay_without_decay_witness:
  "sgd ''/'' (Grads [\<lambda>\<sigma>. 1]) [SharedVariable 0] (PyFloat (1/10)) () 0 (1/2)
       \<lparr>cells = [\<lparr>init_value = 2, var_name = Some ''W''\<rparr>], dicts = []\<rparr>
     = Inr (0, \<lparr>cells = [\<lparr>init_value = 2, var_name = Some ''W''\<rparr>],
                dicts = [[(SharedVariable 0, \<lambda>\<sigma>. \<sigma> 0 - 1/10 * 1)]]\<rparr>)
   \<and> sgd ''/'' (Grads [\<lambda>\<sigma>. 1]) [SharedVariable 0] (PyFloat (1/10)) () 3 1
       \<lparr>cells = [\<lparr>init_value = 2, var_name = Some ''W''\<rparr>], dicts = []\<rparr>
     = sgd_undecorated (Grads [\<lambda>\<sigma>. 1]) [SharedVariable 0] (PyFloat (1/10)) ()
       \<lparr>cells = [\<lparr>init_value = 2, var_name = Some ''W''\<rparr>], dicts = []\<rparr>"
  using lr_decay_without_decay [of 0 "1/2" "''/''" sgd_undecorated "Grads [\<lambda>\<sigma>. 1]" "[SharedVariable 0]"
      "PyFloat (1/10)" "()" "\<lparr>cells = [\<lparr>init_value = 2, var_name = Some ''W''\<rparr>], dicts = []\<rparr>"]
    lr_decay_without_decay [of 3 1 "''/''" sgd_undecorated "Grads [\<lambda>\<sigma>. 1]" "[SharedVariable 0]"
      "PyFloat (1/10)" "()" "\<lparr>cells = [\<lparr>init_value = 2, var_name = Some ''W''\<rparr>], dicts = []\<rparr>"]
  by (simp add: sgd_def sgd_undecorated_def get_or_compute_grads_def and_then_def OrderedDict_def
      setitem_def)

subsection \<open>Exponential moving average\<close>

text \<open>
  C7, as amended. Without \<open>t\<close> the result is \<open>alpha * state + (1 - alpha) * observation\<close>,
  whatever \<open>init_period\<close> is. With \<open>t\<close>, and \<open>init_period\<close> absent or not positive, that
  value is divided by \<open>1 - alpha ** (t + 1)\<close>. With \<open>t\<close> and a positive
  \<open>init_period = T\<close>, \<open>alpha\<close> is replaced by \<open>alpha * min(1, (T - 1) * t / T\<^sup>2 + 1 / T)\<close>
  and nothing is divided.
\<close>

theorem exponential_moving_average_modes:
  "ema alpha s x None init_period \<sigma> = alpha \<sigma> * s \<sigma> + (1 - alpha \<sigma>) * x \<sigma>
   \<and> ((init_period = None \<or> the init_period \<le> 0) \<longrightarrow>
        ema alpha s x (Some t) init_period \<sigma>
          = (alpha \<sigma> * s \<sigma> + (1 - alpha \<sigma>) * x \<sigma>) / (1 - T_pow (alpha \<sigma>) (t \<sigma> + 1))
        \<and> (\<forall>n. t \<sigma> = of_nat n \<longrightarrow> ema alpha s x (Some t) init_period \<sigma>
          = (alpha \<sigma> * s \<sigma> + (1 - alpha \<sigma>) * x \<sigma>) / (1 - alpha \<sigma> ^ (n + 1))))
   \<and> (0 < T \<longrightarrow>
        ema alpha s x (Some t) (Some T) \<sigma>
          = (let a = alpha \<sigma> * min 1 ((T - 1) * t \<sigma> / T\<^sup>2 + 1 / T)
             in a * s \<sigma> + (1 - a) * x \<sigma>))"
proof -
  have pw: "T_pow a (of_nat n + 1) = a ^ (n + 1)" for a n
    using T_pow_of_nat [of a "Suc n"] by (simp add: add.commute)
  show ?thesis
    by (auto simp: exponential_moving_average_def th_fx_def Let_def pw inverse_eq_divide)
qed

theorem exponential_moving_average_modes_witness:
  "ema (\<lambda>\<sigma>. 9/10) (\<lambda>\<sigma>. 0) (\<lambda>\<sigma>. 1) None None (\<lambda>c. 0) = 1/10
   \<and> ema (\<lambda>\<sigma>. 9/10) (\<lambda>\<sigma>. 0) (\<lambda>\<sigma>. 1) (Some (\<lambda>\<sigma>. 0)) None (\<lambda>c. 0) = 1
   \<and> ema (\<lambda>\<sigma>. 9/10) (\<lambda>\<sigma>. 0) (\<lambda>\<sigma>. 1) (Some (\<lambda>\<sigma>. 0)) (Some 0) (\<lambda>c. 0) = 1
   \<and> ema (\<lambda>\<sigma>. 9/10) (\<lambda>\<sigma>. 0) (\<lambda>\<sigma>. 1) (Some (\<lambda>\<sigma>. 2)) (Some 4) (\<lambda>c. 0) = 7/16"
  using exponential_moving_average_modes [of "\<lambda>\<sigma>. 9/10" "\<lambda>\<sigma>. 0" "\<lambda>\<sigma>. 1" None "\<lambda>c. 0" "\<lambda>\<sigma>. 0" 1]
    exponential_moving_average_modes [of "\<lambda>\<sigma>. 9/10" "\<lambda>\<sigma>. 0" "\<lambda>\<sigma>. 1" "Some 0" "\<lambda>c. 0" "\<lambda>\<sigma>. 0" 1]
    exponential_moving_average_modes [of "\<lambda>\<sigma>. 9/10" "\<lambda>\<sigma>. 0" "\<lambda>\<sigma>. 1" None "\<lambda>c. 0" "\<lambda>\<sigma>. 2" 4]
  by (simp add: T_pow_def Let_def)

text \<open>
  The claim as stated gives the third mode for every \<open>init_period\<close> that is passed. The
  source guards it by \<open>init_period > 0\<close>: for \<open>ema(0.9, 0, 1, t=0, init_period=-1)\<close> the
  bias correction is applied and the result is \<open>1\<close>, where the replaced \<open>alpha\<close> of the
  claim would give \<open>1.9\<close>.
\<close>

theorem exponential_moving_average_modes_counterexample:
  "ema (\<lambda>\<sigma>. 9/10) (\<lambda>\<sigma>. 0) (\<lambda>\<sigma>. 1) (Some (\<lambda>\<sigma>. 0)) (Some (-1)) (\<lambda>c. 0) = 1
   \<and> (let T = - 1; t = 0; a = 9/10 * min 1 ((T - 1) * t / T\<^sup>2 + 1 / T)
      in a * 0 + (1 - a) * 1) = (19/10 :: real)"
  by (simp add: exponential_moving_average_def th_fx_def T_pow_def Let_def)

subsection \<open>Primitives of the graph\<close>

lemma and_then_Inr_iff: "and_then m f = Inr y \<longleftrightarrow> (\<exists>x. m = Inr x \<and> f x = Inr y)"
  by (cases m) (simp_all add: and_then_def)

lemma and_then_Inr [simp]: "and_then (Inr x) f = f x"
  by (simp add: and_then_def)

lemma and_then_Inl [simp]: "and_then (Inl e) f = Inl e"
  by (simp add: and_then_def)

lemma setitem_frame [simp]:
  "cells (setitem r k v g) = cells g"
  "length (dicts (setitem r k v g)) = length (dicts g)"
  "q \<noteq> r \<Longrightarrow> dicts (setitem r k v g) ! q = dicts g ! q"
  "q \<noteq> r \<Longrightarrow> items q (setitem r k v g) = items q g"
  by (simp_all add: setitem_def items_def)

lemma items_setitem:
  "r < length (dicts g) \<Longrightarrow> items r (setitem r k v g) = AList.update k v (items r g)"
  by (simp add: setitem_def items_def)

lemma map_of_setitem [simp]:
  "r < length (dicts g) \<Longrightarrow> map_of (items r (setitem r k v g)) = (map_of (items r g))(k \<mapsto> v)"
  by (simp add: update_conv' items_setitem)

lemma getitem_Inr_iff: "getitem r k g = Inr u \<longleftrightarrow> map_of (items r g) k = Some u"
  by (simp add: getitem_def split: option.splits)

lemma theano_shared_frame:
  "theano_shared v name g = (x, g') \<Longrightarrow>
     x = SharedVariable (length (cells g)) \<and> dicts g' = dicts g
     \<and> cells g' = cells g @ [\<lparr>init_value = v, var_name = name\<rparr>]"
  by (auto simp: theano_shared_def)

lemma fold_update_distinct:
  "distinct (map fst ps) \<Longrightarrow> distinct (map fst acc) \<Longrightarrow> fst ` set ps \<inter> fst ` set acc = {} \<Longrightarrow>
     fold (\<lambda>(k, v). AList.update k v) ps acc = acc @ ps"
proof (induction ps arbitrary: acc)
  case Nil
  then show ?case by simp
next
  case (Cons kv ps)
  obtain k v where kv: "kv = (k, v)" by (cases kv)
  have upd: "AList.update k v acc = acc @ [(k, v)]"
    using Cons.prems(3) kv by (induction acc) auto
  have "fold (\<lambda>(k, v). AList.update k v) ps (acc @ [(k, v)]) = (acc @ [(k, v)]) @ ps"
    using Cons.prems kv by (intro Cons.IH) auto
  then show ?case using kv upd by simp
qed

lemma OrderedDict_copy:
  "distinct (map fst ps) \<Longrightarrow> OrderedDict ps g = (length (dicts g), g\<lparr>dicts := dicts g @ [ps]\<rparr>)"
  using fold_update_distinct [of ps "[]"] by (simp add: OrderedDict_def)


lemma make_velocities_Inr:
  "make_velocities params g = Inr (vs, g') \<Longrightarrow>
     vs = fresh_cells g (length params) \<and> dicts g' = dicts g
     \<and> cells g' = cells g @ replicate (length params) \<lparr>init_value = 0, var_name = None\<rparr>
     \<and> (\<forall>p \<in> set params. is_shared p)"
proof (induction params arbitrary: g vs g')
  case Nil
  then show ?case by (simp add: fresh_cells_def)
next
  case (Cons p params)
  from Cons.prems obtain v g1 ws where
    v: "make_velocity p g = Inr (v, g1)" and ws: "make_velocities params g1 = Inr (ws, g')"
    and vs: "vs = v # ws"
    by (auto simp: and_then_Inr_iff)
  from v have g1: "v = SharedVariable (length (cells g))" "dicts g1 = dicts g"
    "cells g1 = cells g @ [\<lparr>init_value = 0, var_name = None\<rparr>]" "is_shared p"
    by (auto simp: make_velocity_def get_value_def and_then_Inr_iff split: if_splits
        dest: theano_shared_frame)
  have ih: "ws = fresh_cells g1 (length params)" "dicts g' = dicts g1"
    "cells g' = cells g1 @ replicate (length params) \<lparr>init_value = 0, var_name = None\<rparr>"
    "\<forall>p \<in> set params. is_shared p"
    using Cons.IH [OF ws] by simp_all
  have "v # ws = fresh_cells g (length (p # params))"
    using ih(1) g1(1,3) by (simp add: fresh_cells_def map_upt_Suc del: upt_Suc)
  moreover have "cells g' = cells g @ replicate (length (p # params)) \<lparr>init_value = 0, var_name = None\<rparr>"
    using ih(3) g1(3) by simp
  ultimately show ?case using vs ih(2,4) g1(2,4) by simp
qed


lemma apply_momentum_loop_frame:
  "apply_momentum_loop u m pvs g = Inr g' \<Longrightarrow>
     cells g' = cells g \<and> length (dicts g') = length (dicts g)
     \<and> (\<forall>q. q \<noteq> u \<longrightarrow> dicts g' ! q = dicts g ! q)"
proof (induction pvs arbitrary: g)
  case Nil
  then show ?case by simp
next
  case (Cons pv pvs)
  obtain p v where pv: "pv = (p, v)" by (cases pv)
  from Cons.prems pv obtain up where
    rest: "apply_momentum_loop u m pvs
             (setitem u p (\<lambda>\<sigma>. m \<sigma> * value_of v \<sigma> + up \<sigma>)
               (setitem u v (\<lambda>\<sigma>. m \<sigma> * value_of v \<sigma> + up \<sigma> - value_of p \<sigma>) g)) = Inr g'"
    by (auto simp: and_then_Inr_iff Let_def)
  from Cons.IH [OF rest] show ?case by simp
qed

lemma apply_nesterov_momentum_loop_frame:
  "apply_nesterov_momentum_loop u m pvs g = Inr g' \<Longrightarrow>
     cells g' = cells g \<and> length (dicts g') = length (dicts g)
     \<and> (\<forall>q. q \<noteq> u \<longrightarrow> dicts g' ! q = dicts g ! q)"
proof (induction pvs arbitrary: g)
  case Nil
  then show ?case by simp
next
  case (Cons pv pvs)
  obtain p v where pv: "pv = (p, v)" by (cases pv)
  from Cons.prems pv obtain up up' where
    rest: "apply_nesterov_momentum_loop u m pvs
             (setitem u p (\<lambda>\<sigma>. m \<sigma> * (m \<sigma> * value_of v \<sigma> + up \<sigma> - value_of p \<sigma>) + up' \<sigma>)
               (setitem u v (\<lambda>\<sigma>. m \<sigma> * value_of v \<sigma> + up \<sigma> - value_of p \<sigma>) g)) = Inr g'"
    by (auto simp: and_then_Inr_iff Let_def)
  from Cons.IH [OF rest] show ?case by simp
qed

lemma apply_momentum_loop_dom:
  "apply_momentum_loop u m pvs g = Inr g' \<Longrightarrow> u < length (dicts g) \<Longrightarrow>
     dom (map_of (items u g')) = dom (map_of (items u g)) \<union> snd ` set pvs"
proof (induction pvs arbitrary: g)
  case Nil
  then show ?case by simp
next
  case (Cons pv pvs)
  obtain p v where pv: "pv = (p, v)" by (cases pv)
  define g1 where "g1 = (\<lambda>up. setitem u v (\<lambda>\<sigma>. m \<sigma> * value_of v \<sigma> + up \<sigma> - value_of p \<sigma>) g)"
  define g2 where "g2 = (\<lambda>up. setitem u p (\<lambda>\<sigma>. m \<sigma> * value_of v \<sigma> + up \<sigma>) (g1 up))"
  from Cons.prems pv obtain up where up: "map_of (items u g) p = Some up"
    and rest: "apply_momentum_loop u m pvs (g2 up) = Inr g'"
    by (auto simp: and_then_Inr_iff Let_def getitem_Inr_iff g1_def g2_def)
  have len: "u < length (dicts (g1 up))" "u < length (dicts (g2 up))"
    using Cons.prems(2) by (simp_all add: g1_def g2_def)
  have "dom (map_of (items u (g2 up))) = insert p (insert v (dom (map_of (items u g))))"
    using Cons.prems(2) len(1) by (simp add: g2_def g1_def map_of_setitem)
  moreover have "p \<in> dom (map_of (items u g))" using up by auto
  ultimately show ?case using Cons.IH [OF rest len(2)] pv by auto
qed

lemma apply_nesterov_momentum_loop_dom:
  "apply_nesterov_momentum_loop u m pvs g = Inr g' \<Longrightarrow> u < length (dicts g) \<Longrightarrow>
     dom (map_of (items u g')) = dom (map_of (items u g)) \<union> snd ` set pvs"
proof (induction pvs arbitrary: g)
  case Nil
  then show ?case by simp
next
  case (Cons pv pvs)
  obtain p v where pv: "pv = (p, v)" by (cases pv)
  define g1 where "g1 = (\<lambda>up. setitem u v (\<lambda>\<sigma>. m \<sigma> * value_of v \<sigma> + up \<sigma> - value_of p \<sigma>) g)"
  define g2 where "g2 = (\<lambda>up up'. setitem u p
      (\<lambda>\<sigma>. m \<sigma> * (m \<sigma> * value_of v \<sigma> + up \<sigma> - value_of p \<sigma>) + up' \<sigma>) (g1 up))"
  from Cons.prems pv obtain up up' where up: "map_of (items u g) p = Some up"
    and rest: "apply_nesterov_momentum_loop u m pvs (g2 up up') = Inr g'"
    by (auto simp: and_then_Inr_iff Let_def getitem_Inr_iff g1_def g2_def)
  have len: "u < length (dicts (g1 up))" "u < length (dicts (g2 up up'))"
    using Cons.prems(2) by (simp_all add: g1_def g2_def)
  have "dom (map_of (items u (g2 up up'))) = insert p (insert v (dom (map_of (items u g))))"
    using Cons.prems(2) len(1) by (simp add: g2_def g1_def map_of_setitem)
  moreover have "p \<in> dom (map_of (items u g))" using up by auto
  ultimately show ?case using Cons.IH [OF rest len(2)] pv by auto
qed

text \<open>Keys that are neither a parameter nor a velocity of the loop keep their value.\<close>

lemma apply_momentum_loop_other:
  "apply_momentum_loop u m pvs g = Inr g' \<Longrightarrow> u < length (dicts g) \<Longrightarrow>
     k \<notin> fst ` set pvs \<Longrightarrow> k \<notin> snd ` set pvs \<Longrightarrow>
     map_of (items u g') k = map_of (items u g) k"
proof (induction pvs arbitrary: g)
  case Nil
  then show ?case by simp
next
  case (Cons pv pvs)
  obtain p v where pv: "pv = (p, v)" by (cases pv)
  define g1 where "g1 = (\<lambda>up. setitem u v (\<lambda>\<sigma>. m \<sigma> * value_of v \<sigma> + up \<sigma> - value_of p \<sigma>) g)"
  define g2 where "g2 = (\<lambda>up. setitem u p (\<lambda>\<sigma>. m \<sigma> * value_of v \<sigma> + up \<sigma>) (g1 up))"
  from Cons.prems pv obtain up where up: "map_of (items u g) p = Some up"
    and rest: "apply_momentum_loop u m pvs (g2 up) = Inr g'"
    by (auto simp: and_then_Inr_iff Let_def getitem_Inr_iff g1_def g2_def)
  have len: "u < length (dicts (g1 up))" "u < length (dicts (g2 up))"
    using Cons.prems(2) by (simp_all add: g1_def g2_def)
  have "map_of (items u (g2 up)) k = map_of (items u g) k"
    using Cons.prems(2,3,4) len(1) pv by (simp add: g2_def g1_def map_of_setitem)
  then show ?case using Cons.IH [OF rest len(2)] Cons.prems(3,4) by simp
qed

lemma apply_nesterov_momentum_loop_other:
  "apply_nesterov_momentum_loop u m pvs g = Inr g' \<Longrightarrow> u < length (dicts g) \<Longrightarrow>
     k \<notin> fst ` set pvs \<Longrightarrow> k \<notin> snd ` set pvs \<Longrightarrow>
     map_of (items u g') k = map_of (items u g) k"
proof (induction pvs arbitrary: g)
  case Nil
  then show ?case by simp
next
  case (Cons pv pvs)
  obtain p v where pv: "pv = (p, v)" by (cases pv)
  define g1 where "g1 = (\<lambda>up. setitem u v (\<lambda>\<sigma>. m \<sigma> * value_of v \<sigma> + up \<sigma> - value_of p \<sigma>) g)"
  define g2 where "g2 = (\<lambda>up up'. setitem u p
      (\<lambda>\<sigma>. m \<sigma> * (m \<sigma> * value_of v \<sigma> + up \<sigma> - value_of p \<sigma>) + up' \<sigma>) (g1 up))"
  from Cons.prems pv obtain up up' where up: "map_of (items u g) p = Some up"
    and rest: "apply_nesterov_momentum_loop u m pvs (g2 up up') = Inr g'"
    by (auto simp: and_then_Inr_iff Let_def getitem_Inr_iff g1_def g2_def)
  have len: "u < length (dicts (g1 up))" "u < length (dicts (g2 up up'))"
    using Cons.prems(2) by (simp_all add: g1_def g2_def)
  have "map_of (items u (g2 up up')) k = map_of (items u g) k"
    using Cons.prems(2,3,4) len(1) pv by (simp add: g2_def g1_def map_of_setitem)
  then show ?case using Cons.IH [OF rest len(2)] Cons.prems(3,4) by simp
qed


lemma apply_momentum_unfold:
  assumes "apply_momentum updates params mom velocities g = Inr (updates', g')"
    and "distinct (keys updates g)"
  shows "\<exists>g1. updates' = length (dicts g) \<and> dicts g1 = dicts g @ [items updates g]
           \<and> length (cells g) \<le> length (cells g1)
           \<and> (velocities = None \<longrightarrow> (\<forall>p \<in> set (momentum_params updates params g). is_shared p))
           \<and> apply_momentum_loop (length (dicts g)) (as_expr mom)
                (zip (momentum_params updates params g) (momentum_velocities updates params velocities g)) g1
              = Inr g'"
proof -
  let ?ps = "momentum_params updates params g"
  let ?g0 = "g\<lparr>dicts := dicts g @ [items updates g]\<rparr>"
  have copy: "OrderedDict (items updates g) g = (length (dicts g), ?g0)"
    using assms(2) by (simp add: OrderedDict_copy keys_def)
  from assms(1) obtain vs g1 where
    vs: "(case velocities of None \<Rightarrow> make_velocities ?ps ?g0 | Some vs \<Rightarrow> Inr (vs, ?g0)) = Inr (vs, g1)"
    and loop: "apply_momentum_loop (length (dicts g)) (as_expr mom) (zip ?ps vs) g1 = Inr g'"
    and ref: "updates' = length (dicts g)"
    by (auto simp: apply_momentum_def copy momentum_params_def [symmetric] and_then_Inr_iff Let_def)
  have "vs = momentum_velocities updates params velocities g \<and> dicts g1 = dicts ?g0
        \<and> length (cells g) \<le> length (cells g1)
        \<and> (velocities = None \<longrightarrow> (\<forall>p \<in> set ?ps. is_shared p))"
  proof (cases velocities)
    case None
    with vs have "make_velocities ?ps ?g0 = Inr (vs, g1)" by simp
    from make_velocities_Inr [OF this] None show ?thesis
      by (simp add: momentum_velocities_def fresh_cells_def)
  next
    case (Some ws)
    with vs show ?thesis by (auto simp: momentum_velocities_def)
  qed
  with loop ref show ?thesis by auto
qed

lemma apply_nesterov_momentum_unfold:
  assumes "apply_nesterov_momentum updates params mom velocities g = Inr (updates', g')"
    and "distinct (keys updates g)"
  shows "\<exists>g1. updates' = length (dicts g) \<and> dicts g1 = dicts g @ [items updates g]
           \<and> length (cells g) \<le> length (cells g1)
           \<and> (velocities = None \<longrightarrow> (\<forall>p \<in> set (momentum_params updates params g). is_shared p))
           \<and> apply_nesterov_momentum_loop (length (dicts g)) (as_expr mom)
                (zip (momentum_params updates params g) (momentum_velocities updates params velocities g)) g1
              = Inr g'"
proof -
  let ?ps = "momentum_params updates params g"
  let ?g0 = "g\<lparr>dicts := dicts g @ [items updates g]\<rparr>"
  have copy: "OrderedDict (items updates g) g = (length (dicts g), ?g0)"
    using assms(2) by (simp add: OrderedDict_copy keys_def)
  from assms(1) obtain vs g1 where
    vs: "(case velocities of None \<Rightarrow> make_velocities ?ps ?g0 | Some vs \<Rightarrow> Inr (vs, ?g0)) = Inr (vs, g1)"
    and loop: "apply_nesterov_momentum_loop (length (dicts g)) (as_expr mom) (zip ?ps vs) g1 = Inr g'"
    and ref: "updates' = length (dicts g)"
    by (auto simp: apply_nesterov_momentum_def copy momentum_params_def [symmetric] and_then_Inr_iff Let_def)
  have "vs = momentum_velocities updates params velocities g \<and> dicts g1 = dicts ?g0
        \<and> length (cells g) \<le> length (cells g1)
        \<and> (velocities = None \<longrightarrow> (\<forall>p \<in> set ?ps. is_shared p))"
  proof (cases velocities)
    case None
    with vs have "make_velocities ?ps ?g0 = Inr (vs, g1)" by simp
    from make_velocities_Inr [OF this] None show ?thesis
      by (simp add: momentum_velocities_def fresh_cells_def)
  next
    case (Some ws)
    with vs show ?thesis by (auto simp: momentum_velocities_def)
  qed
  with loop ref show ?thesis by auto
qed

subsection \<open>The momentum wrappers work on a copy\<close>

text \<open>
  C10. When \<open>apply_momentum\<close> or \<open>apply_nesterov_momentum\<close> returns, the result is a new
  dictionary; every dictionary that existed before the call, the one passed in among
  them, has the items it had. The keys of the result are the keys passed in and the
  velocities paired with a parameter, and a key that is neither such a parameter nor such
  a velocity is bound as before.
\<close>

theorem momentum_wrappers_copy_updates:
  assumes "apply_momentum updates params mom velocities g = Inr (updates', g')
           \<or> apply_nesterov_momentum updates params mom velocities g = Inr (updates', g')"
    and "updates < length (dicts g)"
    and "distinct (keys updates g)"
  shows "updates' = length (dicts g) \<and> updates' \<noteq> updates
         \<and> length (dicts g') = Suc (length (dicts g))
         \<and> (\<forall>r < length (dicts g). items r g' = items r g)
         \<and> dom (map_of (items updates' g'))
             = dom (map_of (items updates g))
               \<union> snd ` set (zip (momentum_params updates params g)
                                (momentum_velocities updates params velocities g))
         \<and> (\<forall>k. k \<notin> fst ` set (zip (momentum_params updates params g)
                                (momentum_velocities updates params velocities g))
               \<and> k \<notin> snd ` set (zip (momentum_params updates params g)
                                (momentum_velocities updates params velocities g))
               \<longrightarrow> map_of (items updates' g') k = map_of (items updates g) k)"
proof -
  let ?pvs = "zip (momentum_params updates params g) (momentum_velocities updates params velocities g)"
  let ?u = "length (dicts g)"
  from assms(1) obtain g1 where ref: "updates' = ?u"
    and g1: "dicts g1 = dicts g @ [items updates g]"
    and frame: "length (dicts g') = length (dicts g1)" "\<forall>q. q \<noteq> ?u \<longrightarrow> dicts g' ! q = dicts g1 ! q"
    and dom: "dom (map_of (items ?u g')) = dom (map_of (items ?u g1)) \<union> snd ` set ?pvs"
    and other: "\<forall>k. k \<notin> fst ` set ?pvs \<and> k \<notin> snd ` set ?pvs
                  \<longrightarrow> map_of (items ?u g') k = map_of (items ?u g1) k"
  proof
    assume a: "apply_momentum updates params mom velocities g = Inr (updates', g')"
    from apply_momentum_unfold [OF a assms(3)] obtain g1 where ref: "updates' = ?u"
      and g1: "dicts g1 = dicts g @ [items updates g]"
      and loop: "apply_momentum_loop ?u (as_expr mom) ?pvs g1 = Inr g'"
      by blast
    have len: "?u < length (dicts g1)" using g1 by simp
    show thesis
      using that [OF ref g1] apply_momentum_loop_frame [OF loop]
        apply_momentum_loop_dom [OF loop len] apply_momentum_loop_other [OF loop len]
      by blast
  next
    assume a: "apply_nesterov_momentum updates params mom velocities g = Inr (updates', g')"
    from apply_nesterov_momentum_unfold [OF a assms(3)] obtain g1 where ref: "updates' = ?u"
      and g1: "dicts g1 = dicts g @ [items updates g]"
      and loop: "apply_nesterov_momentum_loop ?u (as_expr mom) ?pvs g1 = Inr g'"
      by blast
    have len: "?u < length (dicts g1)" using g1 by simp
    show thesis
      using that [OF ref g1] apply_nesterov_momentum_loop_frame [OF loop]
        apply_nesterov_momentum_loop_dom [OF loop len]
        apply_nesterov_momentum_loop_other [OF loop len]
      by blast
  qed
  have copy: "items ?u g1 = items updates g"
    using g1 by (simp add: items_def)
  have old: "items r g' = items r g" if "r < ?u" for r
    using that frame(2) g1 by (simp add: items_def nth_append)
  show ?thesis
    using ref assms(2) frame(1) g1 dom other old by (simp add: copy)
qed


lemma fresh_cells_props:
  "length (fresh_cells g n) = n"
  "distinct (fresh_cells g n)"
  "i < n \<Longrightarrow> fresh_cells g n ! i = SharedVariable (length (cells g) + i)"
  "\<forall>p \<in> set ps. allocated g p \<Longrightarrow> set (fresh_cells g n) \<inter> set ps = {}"
  by (auto simp: fresh_cells_def distinct_map inj_on_def allocated_def)

lemma apply_momentum_loop_zero:
  assumes "apply_momentum_loop u (\<lambda>\<sigma>. 0) pvs g = Inr g'" and "u < length (dicts g)"
  shows "(\<forall>k. k \<notin> snd ` set pvs \<longrightarrow> map_of (items u g') k = map_of (items u g) k)
       \<and> (distinct (map snd pvs) \<and> snd ` set pvs \<inter> fst ` set pvs = {} \<longrightarrow>
            (\<forall>(p, v) \<in> set pvs. \<exists>up. map_of (items u g) p = Some up
                \<and> map_of (items u g') v = Some (\<lambda>\<sigma>. up \<sigma> - value_of p \<sigma>)))"
  using assms
proof (induction pvs arbitrary: g)
  case Nil
  then show ?case by simp
next
  case (Cons pv pvs)
  obtain p v where pv: "pv = (p, v)" by (cases pv)
  from Cons.prems pv obtain up where up: "map_of (items u g) p = Some up"
    and rest: "apply_momentum_loop u (\<lambda>\<sigma>. 0) pvs
                 (setitem u p up (setitem u v (\<lambda>\<sigma>. up \<sigma> - value_of p \<sigma>) g)) = Inr g'"
    by (auto simp: and_then_Inr_iff Let_def getitem_Inr_iff)
  let ?g2 = "setitem u p up (setitem u v (\<lambda>\<sigma>. up \<sigma> - value_of p \<sigma>) g)"
  have len: "u < length (dicts ?g2)" using Cons.prems(2) by simp
  have m2: "map_of (items u ?g2) = (map_of (items u g))(v \<mapsto> (\<lambda>\<sigma>. up \<sigma> - value_of p \<sigma>), p \<mapsto> up)"
    using Cons.prems(2) by simp
  have keep: "map_of (items u ?g2) k = map_of (items u g) k" if "k \<noteq> v" for k
    using that up by (simp add: m2)
  note ih = Cons.IH [OF rest len]
  have first: "map_of (items u g') k = map_of (items u g) k" if "k \<notin> snd ` set (pv # pvs)" for k
    using that ih keep pv by auto
  have second: "\<exists>up. map_of (items u g) q = Some up
                \<and> map_of (items u g') w = Some (\<lambda>\<sigma>. up \<sigma> - value_of q \<sigma>)"
    if d: "distinct (map snd (pv # pvs))" "snd ` set (pv # pvs) \<inter> fst ` set (pv # pvs) = {}"
      and qw: "(q, w) \<in> set (pv # pvs)" for q w
  proof (cases "(q, w) = (p, v)")
    case True
    have "v \<notin> snd ` set pvs" using d(1) pv by auto
    then have "map_of (items u g') v = map_of (items u ?g2) v" using ih by blast
    moreover have "v \<noteq> p" using d(2) pv by auto
    ultimately show ?thesis using True up by (simp add: m2)
  next
    case False
    then have mem: "(q, w) \<in> set pvs" using qw pv by auto
    have d': "distinct (map snd pvs)" "snd ` set pvs \<inter> fst ` set pvs = {}"
      using d by auto
    from ih d' mem obtain uq where uq: "map_of (items u ?g2) q = Some uq"
      "map_of (items u g') w = Some (\<lambda>\<sigma>. uq \<sigma> - value_of q \<sigma>)"
      by blast
    have "q \<noteq> v" using d(2) mem pv by (force simp: disjoint_iff)
    then show ?thesis using uq keep [of q] by simp
  qed
  show ?case using first second by blast
qed

subsection \<open>Momentum with coefficient zero\<close>

text \<open>
  C4. Let \<open>apply_momentum\<close> return with a momentum whose value is \<open>0\<close>, on a dictionary
  with distinct keys, the velocities being new (\<open>velocities = None\<close>, the parameters being
  allocated) or given, distinct and none of them a parameter. Then the returned
  dictionary binds every parameter to the expression \<open>updates[param]\<close> of the dictionary
  passed in, and the velocity paired with a parameter to \<open>updates[param] - param\<close>.
\<close>

theorem apply_momentum_zero_momentum:
  assumes run: "apply_momentum updates params mom velocities g = Inr (updates', g')"
    and zero: "as_expr mom = (\<lambda>\<sigma>. 0)"
    and ref: "updates < length (dicts g)"
    and wf: "distinct (keys updates g)"
    and vel: "(velocities = None \<and> (\<forall>p \<in> set (momentum_params updates params g). allocated g p))
              \<or> (\<exists>vs. velocities = Some vs \<and> distinct vs
                    \<and> set vs \<inter> set (momentum_params updates params g) = {})"
  shows "(\<forall>p \<in> set (momentum_params updates params g).
            map_of (items updates' g') p = map_of (items updates g) p)
       \<and> (\<forall>(p, v) \<in> set (zip (momentum_params updates params g)
                                (momentum_velocities updates params velocities g)).
            \<exists>u. map_of (items updates g) p = Some u
               \<and> map_of (items updates' g') v = Some (\<lambda>\<sigma>. u \<sigma> - value_of p \<sigma>))"
proof -
  let ?ps = "momentum_params updates params g"
  let ?vs = "momentum_velocities updates params velocities g"
  let ?u = "length (dicts g)"
  from apply_momentum_unfold [OF run wf] obtain g1 where u': "updates' = ?u"
    and g1: "dicts g1 = dicts g @ [items updates g]"
    and loop: "apply_momentum_loop ?u (\<lambda>\<sigma>. 0) (zip ?ps ?vs) g1 = Inr g'"
    using zero by auto
  have len: "?u < length (dicts g1)" using g1 by simp
  have copy: "items ?u g1 = items updates g" using g1 by (simp add: items_def)
  have vs: "distinct ?vs \<and> set ?vs \<inter> set ?ps = {}"
  proof (cases velocities)
    case None
    with vel have "\<forall>p \<in> set ?ps. allocated g p" by auto
    from fresh_cells_props(4) [OF this] None show ?thesis
      by (simp add: momentum_velocities_def fresh_cells_props(2))
  next
    case (Some ws)
    with vel show ?thesis by (auto simp: momentum_velocities_def)
  qed
  have d: "distinct (map snd (zip ?ps ?vs))"
    using vs by (simp add: distinct_take map_snd_zip_take)
  have sub: "snd ` set (zip ?ps ?vs) \<subseteq> set ?vs" "fst ` set (zip ?ps ?vs) \<subseteq> set ?ps"
    by (auto dest: set_zip_rightD set_zip_leftD)
  have disj: "snd ` set (zip ?ps ?vs) \<inter> fst ` set (zip ?ps ?vs) = {}"
    using vs sub by blast
  have "p \<notin> snd ` set (zip ?ps ?vs)" if "p \<in> set ?ps" for p
    using that vs sub by blast
  with apply_momentum_loop_zero [OF loop len] d disj show ?thesis
    unfolding u' copy by blast
qed


theorem apply_momentum_zero_momentum_witness:
  "\<exists>g'. apply_momentum 0 None (PyFloat 0) None
          \<lparr>cells = [\<lparr>init_value = 2, var_name = Some ''W''\<rparr>],
           dicts = [[(SharedVariable 0, \<lambda>\<sigma>. \<sigma> 0 - 1)]]\<rparr> = Inr (1, g')
     \<and> map_of (items 1 g') (SharedVariable 0) = Some (\<lambda>\<sigma>. \<sigma> 0 - 1)
     \<and> map_of (items 1 g') (SharedVariable 1) = Some (\<lambda>\<sigma>. \<sigma> 0 - 1 - \<sigma> 0)"
proof -
  let ?G = "\<lparr>cells = [\<lparr>init_value = 2, var_name = Some ''W''\<rparr>],
           dicts = [[(SharedVariable 0, \<lambda>\<sigma>. \<sigma> 0 - 1)]]\<rparr>"
  obtain g' where run: "apply_momentum 0 None (PyFloat 0) None ?G = Inr (1, g')"
    by (simp add: apply_momentum_def keys_def items_def OrderedDict_def make_velocity_def
      get_value_def theano_shared_def getitem_def setitem_def Let_def)
  have "(\<forall>p \<in> set (momentum_params 0 None ?G).
            map_of (items 1 g') p = map_of (items 0 ?G) p)
       \<and> (\<forall>(p, v) \<in> set (zip (momentum_params 0 None ?G)
                                (momentum_velocities 0 None None ?G)).
            \<exists>u. map_of (items 0 ?G) p = Some u
               \<and> map_of (items 1 g') v = Some (\<lambda>\<sigma>. u \<sigma> - value_of p \<sigma>))"
    by (rule apply_momentum_zero_momentum [OF run])
       (simp_all add: keys_def items_def allocated_def momentum_params_def)
  then show ?thesis using run
    by (simp add: momentum_params_def momentum_velocities_def keys_def items_def fresh_cells_def)
qed

theorem momentum_wrappers_copy_updates_witness:
  "\<exists>g' g''. apply_momentum 0 None (PyFloat (9/10)) None
          \<lparr>cells = [\<lparr>init_value = 2, var_name = Some ''W''\<rparr>],
           dicts = [[(SharedVariable 0, \<lambda>\<sigma>. \<sigma> 0 - 1)]]\<rparr> = Inr (1, g')
     \<and> items 0 g' = [(SharedVariable 0, \<lambda>\<sigma>. \<sigma> 0 - 1)]
     \<and> dom (map_of (items 1 g')) = {SharedVariable 0, SharedVariable 1}
     \<and> apply_nesterov_momentum 0 None (PyFloat (9/10)) None
          \<lparr>cells = [\<lparr>init_value = 2, var_name = Some ''W''\<rparr>],
           dicts = [[(SharedVariable 0, \<lambda>\<sigma>. \<sigma> 0 - 1)]]\<rparr> = Inr (1, g'')
     \<and> items 0 g'' = [(SharedVariable 0, \<lambda>\<sigma>. \<sigma> 0 - 1)]
     \<and> dom (map_of (items 1 g'')) = {SharedVariable 0, SharedVariable 1}"
proof -
  let ?G = "\<lparr>cells = [\<lparr>init_value = 2, var_name = Some ''W''\<rparr>],
           dicts = [[(SharedVariable 0, \<lambda>\<sigma>. \<sigma> 0 - 1)]]\<rparr>"
  obtain g' where run: "apply_momentum 0 None (PyFloat (9/10)) None ?G = Inr (1, g')"
    by (simp add: apply_momentum_def keys_def items_def OrderedDict_def make_velocity_def
      get_value_def theano_shared_def getitem_def setitem_def Let_def)
  obtain g'' where run': "apply_nesterov_momentum 0 None (PyFloat (9/10)) None ?G = Inr (1, g'')"
    by (simp add: apply_nesterov_momentum_def keys_def items_def OrderedDict_def make_velocity_def
      get_value_def theano_shared_def getitem_def setitem_def Let_def)
  have pre: "0 < length (dicts ?G)" "distinct (keys 0 ?G)"
    by (simp_all add: keys_def items_def)
  have zipped: "snd ` set (zip (momentum_params 0 None ?G) (momentum_velocities 0 None None ?G))
      = {SharedVariable 1}"
    by (simp add: momentum_params_def momentum_velocities_def keys_def items_def fresh_cells_def)
  from momentum_wrappers_copy_updates [OF disjI1 [OF run] pre]
    momentum_wrappers_copy_updates [OF disjI2 [OF run'] pre]
  show ?thesis using run run' unfolding zipped
    by (auto simp: items_def)
qed


subsection \<open>Burnout\<close>

lemma burnout_pairs:
  "map2 (\<lambda>(k, _) v. (k, v)) xs (map2 f (map (\<lambda>(_, v). v) xs) (map h xs))
     = map (\<lambda>(k, v). (k, f v (h (k, v)))) xs"
  by (induction xs) auto

lemma map_of_map_values:
  "map_of (map (\<lambda>(k, v). (k, F k v)) xs) k = map_option (F k) (map_of xs k)"
  by (induction xs) auto

lemma map_fst_map_values: "map fst (map (\<lambda>(k, v). (k, F k v)) xs) = map fst xs"
  by (induction xs) auto

lemma wrap_int_id: "- (2 ^ (w - 1)) \<le> x \<Longrightarrow> x < 2 ^ (w - 1) \<Longrightarrow> wrap_int w x = x"
  by (simp add: wrap_int_def)

lemma apply_burnout_items:
  assumes "0 < N" and "apply_burnout long_updates initial_updates N g = (updates, g')"
    and "distinct (keys long_updates g)"
  shows "updates = length (dicts g)"
    and "cells g' = cells g @ [\<lparr>init_value = 0, var_name = Some ''momentum_t''\<rparr>]"
    and "items updates g' =
       AList.update (SharedVariable (length (cells g)))
         (\<lambda>\<sigma>. wrap_int 64 (\<sigma> (length (cells g)) + 1))
         (map (\<lambda>(k, v). (k, ifelse (\<lambda>\<sigma>. \<sigma> (length (cells g)) \<ge> N) v
                              (case map_of (items initial_updates g) k of
                                 None \<Rightarrow> value_of k | Some e \<Rightarrow> e)))
           (items long_updates g))"
proof -
  let ?t = "length (cells g)"
  let ?g1 = "g\<lparr>cells := cells g @ [\<lparr>init_value = 0, var_name = Some ''momentum_t''\<rparr>]\<rparr>"
  let ?new = "map (\<lambda>(k, v). (k, ifelse (\<lambda>\<sigma>. \<sigma> ?t \<ge> N) v
                              (case map_of (items initial_updates g) k of
                                 None \<Rightarrow> value_of k | Some e \<Rightarrow> e)))
           (items long_updates g)"
  have it: "items r ?g1 = items r g" for r by (simp add: items_def)
  have pairs: "map2 (\<lambda>(k, _) v. (k, v)) (items long_updates g)
       (ifelse_list (\<lambda>\<sigma>. \<sigma> ?t \<ge> N) (map (\<lambda>(_, v). v) (items long_updates g))
          (map (\<lambda>(k, v). get_default initial_updates k (value_of k) ?g1) (items long_updates g)))
     = ?new"
    unfolding ifelse_list_def burnout_pairs
    by (simp add: get_default_def it case_prod_unfold cong: option.case_cong)
  have dist: "distinct (map fst ?new)"
    using assms(3) unfolding map_fst_map_values keys_def .
  have od: "OrderedDict ?new ?g1 = (length (dicts g), ?g1\<lparr>dicts := dicts g @ [?new]\<rparr>)"
    using OrderedDict_copy [OF dist, of ?g1] by simp
  have res: "(updates, g') = (length (dicts g),
      setitem (length (dicts g)) (SharedVariable ?t) (\<lambda>\<sigma>. wrap_int 64 (\<sigma> ?t + 1))
        (?g1\<lparr>dicts := dicts g @ [?new]\<rparr>))"
    using assms(1,2) by (auto simp add: apply_burnout_def theano_shared_def it pairs od Let_def)
  show "updates = length (dicts g)" using res by simp
  show "cells g' = cells g @ [\<lparr>init_value = 0, var_name = Some ''momentum_t''\<rparr>]"
    using res by simp
  show "items updates g' = AList.update (SharedVariable ?t) (\<lambda>\<sigma>. wrap_int 64 (\<sigma> ?t + 1)) ?new"
    using res by (simp add: items_setitem) (simp add: items_def)
qed

lemma apply_updates_apply:
  "apply_updates U \<sigma> c = (case map_of U (SharedVariable c) of None \<Rightarrow> \<sigma> c | Some e \<Rightarrow> e \<sigma>)"
  by (simp add: apply_updates_def)

subsection \<open>Burnout is a hard switch\<close>

text \<open>
  C3. Let \<open>apply_burnout\<close> be called with \<open>burnout = N > 0\<close> on a long dictionary with
  distinct, allocated keys, and let \<open>t\<close> be the counter it allocates. For every key bound
  in both dictionaries, the returned dictionary binds the key to the expression whose
  value is the initial dictionary's where \<open>t < N\<close> and the long dictionary's where
  \<open>t \<ge> N\<close>: one of the two values, never a combination. The counter starts at \<open>0\<close> and
  is bound to \<open>t + 1\<close> (in 64-bit integers), so after \<open>n < 2\<^sup>6\<^sup>3\<close> calls of the compiled
  function it holds \<open>n\<close>: the call of step \<open>n\<close> uses the initial value when \<open>n < N\<close> and
  the long value when \<open>n \<ge> N\<close>.
\<close>

theorem apply_burnout_hard_switch:
  assumes "0 < N" and "apply_burnout long_updates initial_updates N g = (updates, g')"
    and "distinct (keys long_updates g)"
    and "\<forall>k \<in> set (keys long_updates g). allocated g k"
  shows "(\<forall>k l i. map_of (items long_updates g) k = Some l
                  \<and> map_of (items initial_updates g) k = Some i \<longrightarrow>
            map_of (items updates g') k
              = Some (\<lambda>\<sigma>. if \<sigma> (length (cells g)) < N then i \<sigma> else l \<sigma>))
       \<and> map_of (items updates g') (SharedVariable (length (cells g)))
            = Some (\<lambda>\<sigma>. wrap_int 64 (\<sigma> (length (cells g)) + 1))
       \<and> initial_env g' (length (cells g)) = 0
       \<and> (\<forall>\<sigma> n. \<sigma> (length (cells g)) = 0 \<and> n < 2 ^ 63 \<longrightarrow>
            ((apply_updates (items updates g')) ^^ n) \<sigma> (length (cells g)) = of_nat n
            \<and> (\<forall>k l i. map_of (items long_updates g) k = Some l
                  \<and> map_of (items initial_updates g) k = Some i \<longrightarrow>
                 (\<exists>e. map_of (items updates g') k = Some e
                   \<and> e (((apply_updates (items updates g')) ^^ n) \<sigma>)
                       = (if of_nat n < N
                          then i (((apply_updates (items updates g')) ^^ n) \<sigma>)
                          else l (((apply_updates (items updates g')) ^^ n) \<sigma>)))))"
proof -
  let ?t = "length (cells g)"
  let ?U = "items updates g'"
  note it = apply_burnout_items [OF assms(1,2,3)]
  have fresh: "SharedVariable ?t \<noteq> k" if "map_of (items long_updates g) k = Some l" for k l
  proof -
    from that have "k \<in> set (keys long_updates g)"
      by (auto simp: keys_def dest: map_of_SomeD intro: rev_image_eqI)
    with assms(4) show ?thesis by (auto simp: allocated_def)
  qed
  have sel: "map_of ?U k = Some (\<lambda>\<sigma>. if \<sigma> ?t < N then i \<sigma> else l \<sigma>)"
    if "map_of (items long_updates g) k = Some l" "map_of (items initial_updates g) k = Some i"
    for k l i
    using that fresh [OF that(1)]
    by (auto simp: it(3) update_conv' map_of_map_values ifelse_def)
  have cnt: "map_of ?U (SharedVariable ?t) = Some (\<lambda>\<sigma>. wrap_int 64 (\<sigma> ?t + 1))"
    by (simp add: it(3) update_conv')
  have init: "initial_env g' ?t = 0"
    by (simp add: initial_env_def it(2))
  have steps: "((apply_updates ?U) ^^ n) \<sigma> ?t = of_nat n" if "\<sigma> ?t = 0" "n < 2 ^ 63" for \<sigma> n
    using that(2)
  proof (induction n)
    case 0
    then show ?case using that(1) by simp
  next
    case (Suc n)
    then have prev: "((apply_updates ?U) ^^ n) \<sigma> ?t = of_nat n" by simp
    have "real (Suc n) < 2 ^ 63"
      using Suc.prems by (metis of_nat_less_iff of_nat_numeral of_nat_power)
    then have w: "wrap_int 64 (real n + 1) = real n + 1"
      by (intro wrap_int_id) (simp_all add: add.commute)
    have "((apply_updates ?U) ^^ Suc n) \<sigma> ?t
        = apply_updates ?U (((apply_updates ?U) ^^ n) \<sigma>) ?t"
      by simp
    also have "\<dots> = wrap_int 64 (((apply_updates ?U) ^^ n) \<sigma> ?t + 1)"
      by (simp add: apply_updates_apply cnt)
    also have "\<dots> = real (Suc n)"
      using prev w by (simp add: add.commute)
    finally show ?case .
  qed
  show ?thesis
    using sel cnt init steps by (simp add: not_less)
qed

theorem apply_burnout_hard_switch_witness:
  "\<exists>g'. apply_burnout 0 1 3
          \<lparr>cells = [\<lparr>init_value = 2, var_name = Some ''W''\<rparr>],
           dicts = [[(SharedVariable 0, \<lambda>\<sigma>. \<sigma> 0 - 2)], [(SharedVariable 0, \<lambda>\<sigma>. \<sigma> 0 - 1)]]\<rparr>
         = (2, g')
     \<and> map_of (items 2 g') (SharedVariable 0) = Some (\<lambda>\<sigma>. if \<sigma> 1 < 3 then \<sigma> 0 - 1 else \<sigma> 0 - 2)
     \<and> map_of (items 2 g') (SharedVariable 1) = Some (\<lambda>\<sigma>. wrap_int 64 (\<sigma> 1 + 1))
     \<and> ((apply_updates (items 2 g')) ^^ 2) (\<lambda>c. 0) 1 = 2
     \<and> ((apply_updates (items 2 g')) ^^ 3) (\<lambda>c. 0) 1 = 3"
proof -
  let ?G = "\<lparr>cells = [\<lparr>init_value = 2, var_name = Some ''W''\<rparr>],
           dicts = [[(SharedVariable 0, \<lambda>\<sigma>. \<sigma> 0 - 2)], [(SharedVariable 0, \<lambda>\<sigma>. \<sigma> 0 - 1)]]\<rparr>"
  obtain g' where run: "apply_burnout 0 1 3 ?G = (2, g')"
    by (simp add: apply_burnout_def theano_shared_def OrderedDict_def items_def ifelse_list_def
        Let_def)
  have pre: "(0::real) < 3" "distinct (keys 0 ?G)" "\<forall>k \<in> set (keys 0 ?G). allocated ?G k"
    by (simp_all add: keys_def items_def allocated_def)
  have n: "(2::nat) < 2 ^ 63" "(3::nat) < 2 ^ 63" by simp_all
  from apply_burnout_hard_switch [OF pre(1) run pre(2,3)] n
  show ?thesis using run
    by (simp add: items_def)
qed

subsection \<open>Cocob\<close>

lemma allocated_mono:
  "allocated g k \<Longrightarrow> length (cells g) \<le> length (cells g') \<Longrightarrow> allocated g' k"
  by (auto simp: allocated_def split: variable.splits)

lemma cocob_loop_result:
  assumes "cocob_loop u alpha eps pgs g = Inr g'" and "u < length (dicts g)"
    and "distinct (map fst pgs)"
  shows "cells g' = cells g @ replicate (4 * length pgs) \<lparr>init_value = 0, var_name = None\<rparr>
       \<and> length (dicts g') = length (dicts g)
       \<and> (\<forall>q. q \<noteq> u \<longrightarrow> dicts g' ! q = dicts g ! q)
       \<and> (\<forall>i < length pgs. map_of (items u g') (fst (pgs ! i))
             = Some (cocob_update (length (cells g) + 4 * i) (fst (pgs ! i)) (snd (pgs ! i)) alpha eps))
       \<and> (\<forall>k. k \<notin> fst ` set pgs \<longrightarrow> map_of (items u g') k = map_of (items u g) k)"
  using assms
proof (induction pgs arbitrary: g)
  case Nil
  then show ?case by simp
next
  case (Cons pg pgs)
  obtain p gd where pg: "pg = (p, gd)" by (cases pg)
  let ?z = "\<lparr>init_value = 0, var_name = None\<rparr>"
  let ?n = "length (cells g)"
  define G where "G = setitem u p (cocob_update ?n p gd alpha eps) (g\<lparr>cells := cells g @ replicate 4 ?z\<rparr>)"
  have rest: "cocob_loop u alpha eps pgs G = Inr g'"
    using Cons.prems(1) pg
    by (simp add: G_def cocob_update_def and_then_Inr_iff get_value_def theano_shared_def Let_def
        numeral_eq_Suc split: if_splits)
  have G: "cells G = cells g @ replicate 4 ?z" "length (dicts G) = length (dicts g)"
    "\<And>q. q \<noteq> u \<Longrightarrow> dicts G ! q = dicts g ! q"
    "map_of (items u G) = (map_of (items u g))(p \<mapsto> cocob_update ?n p gd alpha eps)"
    using Cons.prems(2) by (simp_all add: G_def items_def setitem_def update_conv')
  have len: "u < length (dicts G)" using G(2) Cons.prems(2) by simp
  have dist: "distinct (map fst pgs)" "p \<notin> fst ` set pgs" using Cons.prems(3) pg by auto
  note ih = Cons.IH [OF rest len dist(1)]
  have cells: "cells g' = cells g @ replicate (4 * length (pg # pgs)) ?z"
    using ih G(1) by (simp add: replicate_add [symmetric])
  have entry: "map_of (items u g') (fst ((pg # pgs) ! i))
       = Some (cocob_update (?n + 4 * i) (fst ((pg # pgs) ! i)) (snd ((pg # pgs) ! i)) alpha eps)"
    if "i < length (pg # pgs)" for i
  proof (cases i)
    case 0
    have "map_of (items u g') p = map_of (items u G) p" using ih dist(2) by blast
    then show ?thesis using 0 pg G(4) by simp
  next
    case (Suc j)
    then have "j < length pgs" using that by simp
    with ih have "map_of (items u g') (fst (pgs ! j))
        = Some (cocob_update (length (cells G) + 4 * j) (fst (pgs ! j)) (snd (pgs ! j)) alpha eps)"
      by blast
    then show ?thesis using Suc G(1) by (simp add: add.assoc)
  qed
  have other: "map_of (items u g') k = map_of (items u g) k" if "k \<notin> fst ` set (pg # pgs)" for k
  proof -
    have "map_of (items u g') k = map_of (items u G) k" using ih that by auto
    then show ?thesis using that pg G(4) by auto
  qed
  show ?case using cells ih G(2,3) entry other by auto
qed


lemma get_or_compute_grads_length:
  "get_or_compute_grads lg params = Inr grads \<Longrightarrow>
     length grads = length params \<and> (\<forall>p \<in> set params. is_shared p)"
  by (cases lg) (auto simp: get_or_compute_grads_def theano_grad_def list_ex_iff split: if_splits)

text \<open>
  C1. The claim makes the cell \<open>l\<close> of every parameter a running maximum of the gradient
  magnitudes, \<open>l' = max(l, |grad|)\<close>. The source computes \<open>l_t\<close> from the cell and uses it in
  the update of the parameter, but the only entry it writes is \<open>updates[param]\<close>. When
  \<open>cocob\<close> returns for distinct, allocated parameters, the update of parameter \<open>i\<close> reads
  the cell \<open>l\<close> allocated for it through \<open>l_t\<close>, the returned dictionary has no entry for
  that cell, and along every run of the compiled function from the initial state the cell
  holds \<open>0\<close>.
\<close>

theorem cocob_l_never_stored:
  assumes "cocob lg params alpha eps use_sigmoid g = Inr (updates, g')"
    and "get_or_compute_grads lg params = Inr grads"
    and "distinct params" and "\<forall>p \<in> set params. allocated g p" and "i < length params"
  shows "map_of (items updates g') (params ! i)
           = Some (cocob_update (length (cells g) + 4 * i) (params ! i) (grads ! i) alpha eps)
       \<and> map_of (items updates g') (SharedVariable (length (cells g) + 4 * i)) = None
       \<and> (\<forall>k. ((apply_updates (items updates g')) ^^ k) (initial_env g') (length (cells g) + 4 * i) = 0)"
proof -
  let ?u = "length (dicts g)"
  let ?g0 = "g\<lparr>dicts := dicts g @ [[]]\<rparr>"
  let ?l = "length (cells g) + 4 * i"
  note len = get_or_compute_grads_length [OF assms(2)]
  from assms(1,2) have loop: "cocob_loop ?u alpha eps (zip params grads) ?g0 = Inr g'"
    and u: "updates = ?u"
    by (auto simp: cocob_def OrderedDict_def and_then_Inr_iff Let_def)
  have fst: "map fst (zip params grads) = params" using len by simp
  have d: "distinct (map fst (zip params grads))" using assms(3) fst by simp
  have r: "cells g' = cells g @ replicate (4 * length (zip params grads)) \<lparr>init_value = 0, var_name = None\<rparr>"
    "\<forall>j < length (zip params grads). map_of (items ?u g') (fst (zip params grads ! j))
       = Some (cocob_update (length (cells ?g0) + 4 * j) (fst (zip params grads ! j))
                 (snd (zip params grads ! j)) alpha eps)"
    "\<forall>k. k \<notin> fst ` set (zip params grads) \<longrightarrow> map_of (items ?u g') k = map_of (items ?u ?g0) k"
    using cocob_loop_result [OF loop _ d] by simp_all
  have entry: "map_of (items updates g') (params ! i)
           = Some (cocob_update ?l (params ! i) (grads ! i) alpha eps)"
    using r(2) assms(5) len u by simp
  have "SharedVariable ?l \<notin> set params"
    using assms(4) by (auto simp: allocated_def)
  then have "SharedVariable ?l \<notin> fst ` set (zip params grads)"
    using fst by (metis set_map)
  with r(3) have "map_of (items ?u g') (SharedVariable ?l) = map_of (items ?u ?g0) (SharedVariable ?l)"
    by blast
  then have unbound: "map_of (items updates g') (SharedVariable ?l) = None"
    by (simp add: u items_def)
  have init: "initial_env g' ?l = 0"
    using assms(5) len by (simp add: initial_env_def r(1) nth_append)
  have keep: "apply_updates (items updates g') \<sigma> ?l = \<sigma> ?l" for \<sigma>
    by (simp add: apply_updates_apply unbound)
  have run: "((apply_updates (items updates g')) ^^ k) (initial_env g') ?l = 0" for k
    by (induction k) (simp_all add: init keep)
  show ?thesis using entry unbound run by blast
qed

text \<open>
  On the first call with one parameter and the gradient \<open>1\<close>: the cell \<open>l\<close> holds \<open>0\<close> before and
  after the step, where a running maximum holds \<open>max(0, 1) = 1\<close>, the value of \<open>l_t\<close>.
\<close>

theorem cocob_l_never_stored_witness:
  "\<exists>g'. cocob (Grads [\<lambda>\<sigma>. 1]) [SharedVariable 0] 1000 (1 / 10 ^ 9) False
           \<lparr>cells = [\<lparr>init_value = 2, var_name = Some ''W''\<rparr>], dicts = []\<rparr> = Inr (0, g')
     \<and> map_of (items 0 g') (SharedVariable 1) = None
     \<and> initial_env g' 1 = 0
     \<and> apply_updates (items 0 g') (initial_env g') 1 = 0
     \<and> max (initial_env g' 1) \<bar>(\<lambda>\<sigma>. 1) (initial_env g')\<bar> = (1::real)
     \<and> cocob_l_t (SharedVariable 1) (\<lambda>\<sigma>. 1) (initial_env g') = 1"
proof -
  let ?G = "\<lparr>cells = [\<lparr>init_value = 2, var_name = Some ''W''\<rparr>], dicts = []\<rparr>"
  obtain g' where run: "cocob (Grads [\<lambda>\<sigma>. 1]) [SharedVariable 0] 1000 (1 / 10 ^ 9) False ?G = Inr (0, g')"
    by (simp add: cocob_def get_or_compute_grads_def OrderedDict_def get_value_def
        theano_shared_def Let_def)
  have grads: "get_or_compute_grads (Grads [\<lambda>\<sigma>. 1]) [SharedVariable 0] = Inr [\<lambda>\<sigma>. 1]"
    by (simp add: get_or_compute_grads_def)
  have pre: "distinct [SharedVariable 0]" "\<forall>p \<in> set [SharedVariable 0]. allocated ?G p"
    "(0::nat) < length [SharedVariable 0]"
    by (simp_all add: allocated_def)
  note t = cocob_l_never_stored [OF run grads pre]
  from t have a: "map_of (items 0 g') (SharedVariable 1) = None" by simp
  from t have "\<forall>k. ((apply_updates (items 0 g')) ^^ k) (initial_env g') 1 = 0" by simp
  from this [rule_format, of 0] this [rule_format, of 1]
  have b: "initial_env g' 1 = 0" "apply_updates (items 0 g') (initial_env g') 1 = 0" by simp_all
  show ?thesis using run a b by (simp add: cocob_l_t_def)
qed

subsection \<open>Adam\<close>

lemma items_cells_update [simp]: "items r (g\<lparr>cells := c\<rparr>) = items r g"
  by (simp add: items_def)

lemma allocated_not_fresh: "allocated g k \<Longrightarrow> length (cells g) \<le> c \<Longrightarrow> k \<noteq> SharedVariable c"
  by (auto simp: allocated_def)

lemma adam_loop_result:
  assumes "adam_loop u a_t b1 b2 eps pgs g = Inr g'" and "u < length (dicts g)"
    and "distinct (map fst pgs)" and "\<forall>p \<in> fst ` set pgs. allocated g p"
  shows "length (cells g') = length (cells g) + 2 * length pgs
       \<and> (\<forall>c < length (cells g). cells g' ! c = cells g ! c)
       \<and> length (dicts g') = length (dicts g)
       \<and> (\<forall>q. q \<noteq> u \<longrightarrow> dicts g' ! q = dicts g ! q)
       \<and> (\<forall>i < length pgs.
            map_of (items u g') (SharedVariable (length (cells g) + 2 * i))
              = Some (\<lambda>\<sigma>. b1 * \<sigma> (length (cells g) + 2 * i) + (1 - b1) * snd (pgs ! i) \<sigma>)
          \<and> map_of (items u g') (SharedVariable (length (cells g) + 2 * i + 1))
              = Some (\<lambda>\<sigma>. b2 * \<sigma> (length (cells g) + 2 * i + 1) + (1 - b2) * (snd (pgs ! i) \<sigma>)\<^sup>2)
          \<and> map_of (items u g') (fst (pgs ! i))
              = Some (\<lambda>\<sigma>. value_of (fst (pgs ! i)) \<sigma>
                   - a_t \<sigma> * (b1 * \<sigma> (length (cells g) + 2 * i) + (1 - b1) * snd (pgs ! i) \<sigma>)
                     / (sqrt (b2 * \<sigma> (length (cells g) + 2 * i + 1)
                              + (1 - b2) * (snd (pgs ! i) \<sigma>)\<^sup>2) + eps)))
       \<and> (\<forall>k. k \<notin> fst ` set pgs \<and> allocated g k \<longrightarrow> map_of (items u g') k = map_of (items u g) k)"
  using assms
proof (induction pgs arbitrary: g)
  case Nil
  then show ?case by simp
next
  case (Cons pg pgs)
  obtain p gt where pg: "pg = (p, gt)" by (cases pg)
  let ?n = "length (cells g)"
  let ?M = "\<lambda>\<sigma>. b1 * \<sigma> ?n + (1 - b1) * gt \<sigma>"
  let ?V = "\<lambda>\<sigma>. b2 * \<sigma> (?n + 1) + (1 - b2) * (gt \<sigma>)\<^sup>2"
  let ?E = "\<lambda>\<sigma>. value_of p \<sigma> - a_t \<sigma> * (b1 * \<sigma> ?n + (1 - b1) * gt \<sigma>)
                     / (sqrt (b2 * \<sigma> (?n + 1) + (1 - b2) * (gt \<sigma>)\<^sup>2) + eps)"
  from Cons.prems(1) pg obtain n1 n2 where
    rest: "adam_loop u a_t b1 b2 eps pgs
             (setitem u p ?E (setitem u (SharedVariable (?n + 1)) ?V (setitem u (SharedVariable ?n) ?M
                (g\<lparr>cells := cells g @ [\<lparr>init_value = 0, var_name = Some n1\<rparr>,
                                          \<lparr>init_value = 0, var_name = Some n2\<rparr>]\<rparr>)))) = Inr g'"
    by (auto simp: and_then_Inr_iff get_value_def theano_shared_def Let_def split: if_splits)
  define G where "G = setitem u p ?E (setitem u (SharedVariable (?n + 1)) ?V
      (setitem u (SharedVariable ?n) ?M
         (g\<lparr>cells := cells g @ [\<lparr>init_value = 0, var_name = Some n1\<rparr>,
                                   \<lparr>init_value = 0, var_name = Some n2\<rparr>]\<rparr>)))"
  have G: "cells G = cells g @ [\<lparr>init_value = 0, var_name = Some n1\<rparr>, \<lparr>init_value = 0, var_name = Some n2\<rparr>]"
    "length (dicts G) = length (dicts g)"
    "\<And>q. q \<noteq> u \<Longrightarrow> dicts G ! q = dicts g ! q"
    "map_of (items u G) = (map_of (items u g))(SharedVariable ?n \<mapsto> ?M, SharedVariable (?n + 1) \<mapsto> ?V, p \<mapsto> ?E)"
    using Cons.prems(2) by (simp_all add: G_def)
  have len: "u < length (dicts G)" using G(2) Cons.prems(2) by simp
  have dist: "distinct (map fst pgs)" "p \<notin> fst ` set pgs" using Cons.prems(3) pg by auto
  have palloc: "allocated g p" using Cons.prems(4) pg by simp
  have alloc: "\<forall>q \<in> fst ` set pgs. allocated G q"
    using Cons.prems(4) G(1) by (auto intro!: allocated_mono [of g _ G])
  have pn: "p \<noteq> SharedVariable ?n" "p \<noteq> SharedVariable (?n + 1)"
    using palloc by (auto simp: allocated_def)
  have nf: "q \<noteq> SharedVariable ?n \<and> q \<noteq> SharedVariable (?n + 1)" if "allocated g q" for q
    using that by (auto simp: allocated_def)
  have fresh: "SharedVariable ?n \<notin> fst ` set pgs" "SharedVariable (?n + 1) \<notin> fst ` set pgs"
    using Cons.prems(4) nf by fastforce+
  have allocG: "allocated G (SharedVariable ?n)" "allocated G (SharedVariable (?n + 1))" "allocated G p"
    using palloc G(1) by (auto simp: allocated_def split: variable.splits)
  have rest': "adam_loop u a_t b1 b2 eps pgs G = Inr g'" using rest by (simp add: G_def)
  note ih = Cons.IH [OF rest' len dist(1) alloc]
  have keep: "map_of (items u g') k = map_of (items u G) k" if "k \<notin> fst ` set pgs" "allocated G k" for k
    using ih that by blast
  have cells: "length (cells g') = ?n + 2 * length (pg # pgs)"
    "\<forall>c < ?n. cells g' ! c = cells g ! c"
    using ih G(1) by (simp_all add: nth_append)
  have entry: "map_of (items u g') (SharedVariable (?n + 2 * i))
              = Some (\<lambda>\<sigma>. b1 * \<sigma> (?n + 2 * i) + (1 - b1) * snd ((pg # pgs) ! i) \<sigma>)
          \<and> map_of (items u g') (SharedVariable (?n + 2 * i + 1))
              = Some (\<lambda>\<sigma>. b2 * \<sigma> (?n + 2 * i + 1) + (1 - b2) * (snd ((pg # pgs) ! i) \<sigma>)\<^sup>2)
          \<and> map_of (items u g') (fst ((pg # pgs) ! i))
              = Some (\<lambda>\<sigma>. value_of (fst ((pg # pgs) ! i)) \<sigma>
                   - a_t \<sigma> * (b1 * \<sigma> (?n + 2 * i) + (1 - b1) * snd ((pg # pgs) ! i) \<sigma>)
                     / (sqrt (b2 * \<sigma> (?n + 2 * i + 1)
                              + (1 - b2) * (snd ((pg # pgs) ! i) \<sigma>)\<^sup>2) + eps))"
    if "i < length (pg # pgs)" for i
  proof (cases i)
    case 0
    show ?thesis
      using keep [OF fresh(1) allocG(1)] keep [OF fresh(2) allocG(2)] keep [OF dist(2) allocG(3)]
        pn 0 pg
      by (simp add: G(4))
  next
    case (Suc j)
    then have j: "j < length pgs" using that by simp
    have nth: "(pg # pgs) ! i = pgs ! j" using Suc by simp
    have eq: "?n + 2 * i = length (cells G) + 2 * j" using G(1) Suc by simp
    from ih j show ?thesis
      unfolding nth eq by blast
  qed
  have other: "map_of (items u g') k = map_of (items u g) k"
    if "k \<notin> fst ` set (pg # pgs)" "allocated g k" for k
  proof -
    have "k \<noteq> SharedVariable ?n" "k \<noteq> SharedVariable (?n + 1)" "k \<noteq> p"
      using that pg by (auto simp: allocated_def)
    moreover have "allocated G k" using that(2) G(1) by (auto intro: allocated_mono)
    ultimately show ?thesis using keep [of k] that(1) by (simp add: G(4))
  qed
  show ?case using cells ih G(2,3) entry other by auto
qed


text \<open>
  C5. Let \<open>adam\<close> return, called without decay on distinct, allocated parameters. It
  allocates one counter \<open>t\<close>, starting at \<open>0\<close> and bound to \<open>t + 1\<close>. The factor that all
  parameters share is \<open>a_t = learning_rate * sqrt(1 - beta2 ** t') / (1 - beta1 ** t')\<close> with
  \<open>t' = t + 1\<close>; where the counter holds \<open>0\<close>, that is on the first step, it is
  \<open>learning_rate * sqrt(1 - beta2) / (1 - beta1)\<close>. Parameter \<open>i\<close> has two cells of its
  own, bound to the refreshed averages \<open>m'\<close> and \<open>v'\<close>, and is itself bound to
  \<open>param - a_t * m' / (sqrt(v') + epsilon)\<close>.
\<close>

theorem adam_bias_corrected_step:
  assumes "adam sd lg params learning_rate (beta1, beta2, epsilon) decay_period decay_factor g
             = Inr (updates, g')"
    and "decay_period \<le> 0 \<or> decay_factor = 1"
    and "get_or_compute_grads lg params = Inr grads"
    and "distinct params" and "\<forall>p \<in> set params. allocated g p"
  shows "map_of (items updates g') (SharedVariable (length (cells g)))
           = Some (\<lambda>\<sigma>. \<sigma> (length (cells g)) + 1)
       \<and> initial_env g' (length (cells g)) = 0
       \<and> (\<forall>\<sigma>. adam_a_t (as_expr learning_rate) beta1 beta2 (\<lambda>\<sigma>. \<sigma> (length (cells g)) + 1) \<sigma>
                 = as_expr learning_rate \<sigma> * sqrt (1 - T_pow beta2 (\<sigma> (length (cells g)) + 1))
                     / (1 - T_pow beta1 (\<sigma> (length (cells g)) + 1)))
       \<and> (\<forall>\<sigma> n. \<sigma> (length (cells g)) = of_nat n \<longrightarrow>
              adam_a_t (as_expr learning_rate) beta1 beta2 (\<lambda>\<sigma>. \<sigma> (length (cells g)) + 1) \<sigma>
                 = as_expr learning_rate \<sigma> * sqrt (1 - beta2 ^ (n + 1)) / (1 - beta1 ^ (n + 1)))
       \<and> (\<forall>\<sigma>. \<sigma> (length (cells g)) = 0 \<longrightarrow>
              adam_a_t (as_expr learning_rate) beta1 beta2 (\<lambda>\<sigma>. \<sigma> (length (cells g)) + 1) \<sigma>
                 = as_expr learning_rate \<sigma> * sqrt (1 - beta2) / (1 - beta1))
       \<and> (\<forall>i < length params. \<exists>m' v'.
              m' = (\<lambda>\<sigma>. beta1 * \<sigma> (length (cells g) + 1 + 2 * i) + (1 - beta1) * (grads ! i) \<sigma>)
            \<and> v' = (\<lambda>\<sigma>. beta2 * \<sigma> (length (cells g) + 2 + 2 * i) + (1 - beta2) * ((grads ! i) \<sigma>)\<^sup>2)
            \<and> map_of (items updates g') (SharedVariable (length (cells g) + 1 + 2 * i)) = Some m'
            \<and> map_of (items updates g') (SharedVariable (length (cells g) + 2 + 2 * i)) = Some v'
            \<and> map_of (items updates g') (params ! i)
                = Some (\<lambda>\<sigma>. value_of (params ! i) \<sigma>
                     - adam_a_t (as_expr learning_rate) beta1 beta2 (\<lambda>\<sigma>. \<sigma> (length (cells g)) + 1) \<sigma>
                         * m' \<sigma> / (sqrt (v' \<sigma>) + epsilon)))"
proof -
  let ?t = "length (cells g)"
  let ?u = "length (dicts g)"
  let ?a = "adam_a_t (as_expr learning_rate) beta1 beta2 (\<lambda>\<sigma>. \<sigma> ?t + 1)"
  let ?g2 = "g\<lparr>cells := cells g @ [\<lparr>init_value = 0, var_name = Some ''Adam_t''\<rparr>],
               dicts := dicts g @ [[]]\<rparr>"
  let ?pgs = "zip params grads"
  note len = get_or_compute_grads_length [OF assms(3)]
  from assms(1,2,3) obtain gl where
    loop: "adam_loop ?u ?a beta1 beta2 epsilon ?pgs ?g2 = Inr gl"
    and u: "updates = ?u"
    and fin: "g' = setitem ?u (SharedVariable ?t) (\<lambda>\<sigma>. \<sigma> ?t + 1) gl"
    by (auto simp: adam_def lr_decay_def adam_undecorated_def OrderedDict_def theano_shared_def
        and_then_Inr_iff Let_def)
  have fst: "map fst ?pgs = params" using len by simp
  have d: "distinct (map fst ?pgs)" using assms(4) fst by simp
  have al: "\<forall>p \<in> fst ` set ?pgs. allocated ?g2 p"
  proof
    fix p assume "p \<in> fst ` set ?pgs"
    then have "p \<in> set params" by (auto dest: set_zip_leftD)
    with assms(5) have "allocated g p" by blast
    then show "allocated ?g2 p" by (rule allocated_mono) simp
  qed
  have ul: "?u < length (dicts ?g2)" by simp
  note r = adam_loop_result [OF loop ul d al]
  have ugl: "?u < length (dicts gl)" using r by simp
  have final: "map_of (items updates g') = (map_of (items ?u gl))(SharedVariable ?t \<mapsto> (\<lambda>\<sigma>. \<sigma> ?t + 1))"
    using ugl by (simp add: fin u)
  have cnt: "map_of (items updates g') (SharedVariable ?t) = Some (\<lambda>\<sigma>. \<sigma> ?t + 1)"
    by (simp add: final)
  have "cells g' ! ?t = cells ?g2 ! ?t" using r by (simp add: fin)
  then have init: "initial_env g' ?t = 0"
    using r by (simp add: initial_env_def fin)
  have pw: "T_pow b (of_nat n + 1) = b ^ (n + 1)" for b n
    using T_pow_of_nat [of b "Suc n"] by (simp add: add.commute)
  have a1: "?a \<sigma> = as_expr learning_rate \<sigma> * sqrt (1 - T_pow beta2 (\<sigma> ?t + 1))
                     / (1 - T_pow beta1 (\<sigma> ?t + 1))" for \<sigma>
    by (simp add: adam_a_t_def)
  have a2: "?a \<sigma> = as_expr learning_rate \<sigma> * sqrt (1 - beta2 ^ (n + 1)) / (1 - beta1 ^ (n + 1))"
    if "\<sigma> ?t = of_nat n" for \<sigma> n
    using that by (simp add: adam_a_t_def pw)
  have a3: "?a \<sigma> = as_expr learning_rate \<sigma> * sqrt (1 - beta2) / (1 - beta1)"
    if "\<sigma> ?t = 0" for \<sigma>
    using a2 [of \<sigma> 0] that by simp
  have entries: "\<exists>m' v'.
              m' = (\<lambda>\<sigma>. beta1 * \<sigma> (?t + 1 + 2 * i) + (1 - beta1) * (grads ! i) \<sigma>)
            \<and> v' = (\<lambda>\<sigma>. beta2 * \<sigma> (?t + 2 + 2 * i) + (1 - beta2) * ((grads ! i) \<sigma>)\<^sup>2)
            \<and> map_of (items updates g') (SharedVariable (?t + 1 + 2 * i)) = Some m'
            \<and> map_of (items updates g') (SharedVariable (?t + 2 + 2 * i)) = Some v'
            \<and> map_of (items updates g') (params ! i)
                = Some (\<lambda>\<sigma>. value_of (params ! i) \<sigma> - ?a \<sigma> * m' \<sigma> / (sqrt (v' \<sigma>) + epsilon))"
    if i: "i < length params" for i
  proof -
    have i': "i < length ?pgs" using i len by simp
    have nth: "fst (?pgs ! i) = params ! i" "snd (?pgs ! i) = grads ! i" using i len by simp_all
    have c: "length (cells ?g2) + 2 * i = ?t + 1 + 2 * i" "length (cells ?g2) + 2 * i + 1 = ?t + 2 + 2 * i"
      by simp_all
    have "allocated g (params ! i)" using assms(5) i by simp
    then have pt: "params ! i \<noteq> SharedVariable ?t" by (auto simp: allocated_def)
    from r i' have
      "map_of (items ?u gl) (SharedVariable (length (cells ?g2) + 2 * i))
              = Some (\<lambda>\<sigma>. beta1 * \<sigma> (length (cells ?g2) + 2 * i) + (1 - beta1) * snd (?pgs ! i) \<sigma>)"
      "map_of (items ?u gl) (SharedVariable (length (cells ?g2) + 2 * i + 1))
              = Some (\<lambda>\<sigma>. beta2 * \<sigma> (length (cells ?g2) + 2 * i + 1) + (1 - beta2) * (snd (?pgs ! i) \<sigma>)\<^sup>2)"
      "map_of (items ?u gl) (fst (?pgs ! i))
              = Some (\<lambda>\<sigma>. value_of (fst (?pgs ! i)) \<sigma>
                   - ?a \<sigma> * (beta1 * \<sigma> (length (cells ?g2) + 2 * i) + (1 - beta1) * snd (?pgs ! i) \<sigma>)
                     / (sqrt (beta2 * \<sigma> (length (cells ?g2) + 2 * i + 1)
                              + (1 - beta2) * (snd (?pgs ! i) \<sigma>)\<^sup>2) + epsilon))"
      by blast+
    then show ?thesis
      unfolding nth c using pt by (simp add: final)
  qed
  show ?thesis
    using cnt init a1 a2 a3 entries by blast
qed


theorem adam_bias_corrected_step_witness:
  "\<exists>g'. adam ''/'' (Grads [\<lambda>\<sigma>. 1]) [SharedVariable 0] (PyFloat (1 / 1000))
            (9 / 10, 999 / 1000, 1 / 10 ^ 8) 0 (1 / 2)
            \<lparr>cells = [\<lparr>init_value = 2, var_name = Some ''W''\<rparr>], dicts = []\<rparr> = Inr (0, g')
     \<and> map_of (items 0 g') (SharedVariable 1) = Some (\<lambda>\<sigma>. \<sigma> 1 + 1)
     \<and> initial_env g' 1 = 0
     \<and> adam_a_t (\<lambda>\<sigma>. 1 / 1000) (9 / 10) (999 / 1000) (\<lambda>\<sigma>. \<sigma> 1 + 1) (\<lambda>c. 0)
         = 1 / 1000 * sqrt (1 - 999 / 1000) / (1 - 9 / 10)
     \<and> map_of (items 0 g') (SharedVariable 2) = Some (\<lambda>\<sigma>. 9 / 10 * \<sigma> 2 + (1 - 9 / 10) * 1)"
proof -
  let ?G = "\<lparr>cells = [\<lparr>init_value = 2, var_name = Some ''W''\<rparr>], dicts = []\<rparr>"
  obtain g' where run: "adam ''/'' (Grads [\<lambda>\<sigma>. 1]) [SharedVariable 0] (PyFloat (1 / 1000))
            (9 / 10, 999 / 1000, 1 / 10 ^ 8) 0 (1 / 2) ?G = Inr (0, g')"
    by (simp add: adam_def lr_decay_def adam_undecorated_def get_or_compute_grads_def
        OrderedDict_def get_value_def theano_shared_def name_of_def str_add_def Let_def)
  have grads: "get_or_compute_grads (Grads [\<lambda>\<sigma>. 1]) [SharedVariable 0] = Inr [\<lambda>\<sigma>. 1]"
    by (simp add: get_or_compute_grads_def)
  have pre: "(0::int) \<le> 0 \<or> (1 / 2 :: real) = 1" "distinct [SharedVariable 0]"
    "\<forall>p \<in> set [SharedVariable 0]. allocated ?G p"
    by (simp_all add: allocated_def)
  from adam_bias_corrected_step [OF run pre(1) grads pre(2,3)]
  show ?thesis using run by (simp add: adam_a_t_def T_pow_def numeral_2_eq_2)
qed


subsection \<open>Norm constraint\<close>














subsection \<open>YellowFin\<close>

lemma setitems_frame [simp]:
  "cells (setitems r kvs g) = cells g"
  "length (dicts (setitems r kvs g)) = length (dicts g)"
  by (induction r kvs g rule: setitems.induct) simp_all


lemma theano_shared_simps [simp]:
  "fst (theano_shared v name g) = SharedVariable (length (cells g))"
  "cells (snd (theano_shared v name g)) = cells g @ [\<lparr>init_value = v, var_name = name\<rparr>]"
  "dicts (snd (theano_shared v name g)) = dicts g"
  by (simp_all add: theano_shared_def)









lemma dict_update_frame:
  "cells (fold (\<lambda>(k, v). setitem u k v) xs g) = cells g
   \<and> length (dicts (fold (\<lambda>(k, v). setitem u k v) xs g)) = length (dicts g)"
  by (induction xs arbitrary: g) (simp_all add: case_prod_unfold)


























end
